theory Spec2Isabelle
  imports Complex_Main
begin

section \<open>Vector math (utils/physics)\<close>

text \<open>
  JavaScript numbers are modelled as real numbers: every arithmetic operation of the
  source is the exact operation on \<open>real\<close>.  The rounding of the binary64 numbers of
  JavaScript is modelled apart, for the friction loop of \<open>updatePhysics\<close>, where it decides
  whether the kinetic energy can rise.  The fields \<open>x\<close> and \<open>y\<close> of the source's
  \<open>Vector2\<close> are called \<open>vx\<close> and \<open>vy\<close> here.
\<close>

record Vector2 =
  vx :: real
  vy :: real

definition vecAdd :: "Vector2 \<Rightarrow> Vector2 \<Rightarrow> Vector2" where
  "vecAdd v1 v2 = \<lparr>vx = vx v1 + vx v2, vy = vy v1 + vy v2\<rparr>"

definition vecSub :: "Vector2 \<Rightarrow> Vector2 \<Rightarrow> Vector2" where
  "vecSub v1 v2 = \<lparr>vx = vx v1 - vx v2, vy = vy v1 - vy v2\<rparr>"

definition vecMult :: "Vector2 \<Rightarrow> real \<Rightarrow> Vector2" where
  "vecMult v s = \<lparr>vx = vx v * s, vy = vy v * s\<rparr>"

definition vecDot :: "Vector2 \<Rightarrow> Vector2 \<Rightarrow> real" where
  "vecDot v1 v2 = vx v1 * vx v2 + vy v1 * vy v2"

definition vecLen :: "Vector2 \<Rightarrow> real" where
  "vecLen v = sqrt (vx v * vx v + vy v * vy v)"

definition vecNorm :: "Vector2 \<Rightarrow> Vector2" where
  "vecNorm v = (let len = vecLen v in
     if len = 0 then \<lparr>vx = 0, vy = 0\<rparr> else \<lparr>vx = vx v / len, vy = vy v / len\<rparr>)"

definition vecDist :: "Vector2 \<Rightarrow> Vector2 \<Rightarrow> real" where
  "vecDist v1 v2 = vecLen (vecSub v1 v2)"

abbreviation zeroVec :: Vector2 where
  "zeroVec \<equiv> \<lparr>vx = 0, vy = 0\<rparr>"

section \<open>Data model (types)\<close>

datatype BallType = CUE | RED | YELLOW | GREEN | BROWN | BLUE | PINK | BLACK

text \<open>
  \<open>TargetState = 'RED' | 'COLOR' | BallType\<close>.  The enum \<open>BallType\<close> is string valued and
  \<open>BallType.RED\<close> is the string \<open>'RED'\<close>, so the target \<open>'RED'\<close> is \<open>TBall RED\<close>.
\<close>

datatype TargetState = TColor | TBall BallType

abbreviation TRed :: TargetState where
  "TRed \<equiv> TBall RED"

text \<open>The fields \<open>id\<close>, \<open>type\<close> and \<open>value\<close> of a ball are \<open>bid\<close>, \<open>btype\<close>, \<open>bvalue\<close>.\<close>

record Ball =
  bid :: int
  btype :: BallType
  pos :: Vector2
  vel :: Vector2
  radius :: real
  color :: string
  mass :: real
  potted :: bool
  bvalue :: real

record TableConfig =
  width :: real
  height :: real
  pocketRadius :: real
  cushionWidth :: real

text \<open>\<open>Spin.x\<close> is side spin, \<open>Spin.y\<close> is top/back spin, where \<open>-1\<close> is backspin.\<close>

record Spin =
  spin_x :: real
  spin_y :: real

datatype GameMode = SINGLE_PLAYER | TWO_PLAYER | ONLINE_HOST | ONLINE_CLIENT

datatype Difficulty = EASY | MEDIUM | HARD

datatype GameState = WELCOME | MENU | PLAYING | GAME_OVER

datatype Player = ONE | TWO | AI

definition BALL_RADIUS :: real where
  "BALL_RADIUS = 9.25"

definition TABLE_WIDTH :: real where
  "TABLE_WIDTH = 800"

definition TABLE_HEIGHT :: real where
  "TABLE_HEIGHT = 400"

definition TABLE_CONFIG :: TableConfig where
  "TABLE_CONFIG = \<lparr>width = TABLE_WIDTH, height = TABLE_HEIGHT, pocketRadius = 17, cushionWidth = 42\<rparr>"

definition BAULK_X :: real where
  "BAULK_X = 170"

definition CENTER_Y :: real where
  "CENTER_Y = 200"

definition D_RADIUS :: real where
  "D_RADIUS = 60"

fun getBallValue :: "BallType \<Rightarrow> real" where
  "getBallValue RED = 1"
| "getBallValue YELLOW = 2"
| "getBallValue GREEN = 3"
| "getBallValue BROWN = 4"
| "getBallValue BLUE = 5"
| "getBallValue PINK = 6"
| "getBallValue BLACK = 7"
| "getBallValue CUE = 0"

text \<open>The string value of each member of the enum \<open>BallType\<close>.\<close>

fun ballTypeName :: "BallType \<Rightarrow> string" where
  "ballTypeName CUE = ''CUE''"
| "ballTypeName RED = ''RED''"
| "ballTypeName YELLOW = ''YELLOW''"
| "ballTypeName GREEN = ''GREEN''"
| "ballTypeName BROWN = ''BROWN''"
| "ballTypeName BLUE = ''BLUE''"
| "ballTypeName PINK = ''PINK''"
| "ballTypeName BLACK = ''BLACK''"

definition createBall :: "int \<Rightarrow> BallType \<Rightarrow> real \<Rightarrow> real \<Rightarrow> string \<Rightarrow> real \<Rightarrow> Ball" where
  "createBall i t px py c v =
     \<lparr>bid = i, btype = t, pos = \<lparr>vx = px, vy = py\<rparr>, vel = zeroVec, radius = BALL_RADIUS,
      color = c, mass = 1, potted = False, bvalue = v\<rparr>"

section \<open>Line of sight and the snooker check\<close>

text \<open>
  \<open>canSeeBall\<close>: the loop over \<open>allBalls\<close> returns false at the first obstructing ball;
  \<open>continue\<close> skips a ball.
\<close>

definition obstructs :: "Vector2 \<Rightarrow> Vector2 \<Rightarrow> real \<Rightarrow> Ball \<Rightarrow> bool" where
  "obstructs start dir dst b =
     (let f = vecSub (pos b) start;
          d = vecDot f dir
      in if d < 0 \<or> d > dst then False
         else (let closestPoint = vecAdd start (vecMult dir d);
                   distToBall = vecDist closestPoint (pos b)
               in distToBall < radius b * 1.95))"

fun canSeeLoop :: "Vector2 \<Rightarrow> Vector2 \<Rightarrow> real \<Rightarrow> Ball \<Rightarrow> Ball list \<Rightarrow> bool" where
  "canSeeLoop start dir dst target [] = True"
| "canSeeLoop start dir dst target (b # rest) =
     (if bid b = bid target \<or> btype b = CUE \<or> potted b then canSeeLoop start dir dst target rest
      else if obstructs start dir dst b then False
      else canSeeLoop start dir dst target rest)"

definition canSeeBall :: "Vector2 \<Rightarrow> Ball \<Rightarrow> Ball list \<Rightarrow> bool" where
  "canSeeBall start target allBalls =
     (let dir = vecNorm (vecSub (pos target) start);
          dst = vecDist (pos target) start
      in canSeeLoop start dir dst target allBalls)"

definition legalTargets :: "Ball list \<Rightarrow> TargetState \<Rightarrow> Ball list" where
  "legalTargets bs tgt =
     (if tgt = TRed then filter (\<lambda>b. btype b = RED \<and> \<not> potted b) bs
      else if tgt = TColor then filter (\<lambda>b. btype b \<noteq> RED \<and> btype b \<noteq> CUE \<and> \<not> potted b) bs
      else filter (\<lambda>b. TBall (btype b) = tgt \<and> \<not> potted b) bs)"

fun anyVisible :: "Vector2 \<Rightarrow> Ball list \<Rightarrow> Ball list \<Rightarrow> bool" where
  "anyVisible start bs [] = False"
| "anyVisible start bs (t # rest) = (if canSeeBall start t bs then True else anyVisible start bs rest)"

definition checkIsSnookered :: "Ball list \<Rightarrow> TargetState \<Rightarrow> bool" where
  "checkIsSnookered bs tgt =
     (case find (\<lambda>b. btype b = CUE \<and> \<not> potted b) bs of
        None \<Rightarrow> False
      | Some cueBall \<Rightarrow>
          (let lts = legalTargets bs tgt
           in if length lts = 0 then False
              else if anyVisible (pos cueBall) bs lts then False
              else True))"

section \<open>Respawning a ball\<close>

text \<open>
  The balls of \<open>ballsRef.current\<close> are objects mutated in place; the model returns the
  updated list.  \<open>updateFirst P f\<close> applies \<open>f\<close> to the object that \<open>find\<close> returns.
\<close>

fun updateFirst :: "('a \<Rightarrow> bool) \<Rightarrow> ('a \<Rightarrow> 'a) \<Rightarrow> 'a list \<Rightarrow> 'a list" where
  "updateFirst P f [] = []"
| "updateFirst P f (a # rest) = (if P a then f a # rest else a # updateFirst P f rest)"

definition spots :: "(BallType \<times> Vector2) list" where
  "spots =
     [(BLACK, \<lparr>vx = 720, vy = CENTER_Y\<rparr>),
      (PINK, \<lparr>vx = 600, vy = CENTER_Y\<rparr>),
      (BLUE, \<lparr>vx = 400, vy = CENTER_Y\<rparr>),
      (BROWN, \<lparr>vx = BAULK_X, vy = CENTER_Y\<rparr>),
      (GREEN, \<lparr>vx = BAULK_X, vy = CENTER_Y - D_RADIUS\<rparr>),
      (YELLOW, \<lparr>vx = BAULK_X, vy = CENTER_Y + D_RADIUS\<rparr>)]"

definition overflowSpot :: Vector2 where
  "overflowSpot = \<lparr>vx = 730 + BALL_RADIUS * 2.1, vy = CENTER_Y\<rparr>"

definition isOccupied :: "Ball list \<Rightarrow> int \<Rightarrow> Vector2 \<Rightarrow> bool" where
  "isOccupied bs currentId p =
     list_ex (\<lambda>b. \<not> potted b \<and> bid b \<noteq> currentId \<and> vecDist (pos b) p < BALL_RADIUS * 2) bs"

definition respawnPos :: "Ball list \<Rightarrow> int \<Rightarrow> Vector2 \<Rightarrow> Vector2" where
  "respawnPos bs currentId targetPos =
     (if \<not> isOccupied bs currentId targetPos then targetPos
      else (case find (\<lambda>s. \<not> isOccupied bs currentId (snd s)) spots of
              Some s \<Rightarrow> snd s
            | None \<Rightarrow> overflowSpot))"

definition respawnBall :: "Ball \<Rightarrow> Ball list \<Rightarrow> Ball list" where
  "respawnBall ball bs =
     (case find (\<lambda>b. bid b = bid ball) bs of
        None \<Rightarrow> bs
      | Some currentBall \<Rightarrow>
          (let bs1 = updateFirst (\<lambda>b. bid b = bid ball) (\<lambda>b. b\<lparr>potted := False, vel := zeroVec\<rparr>) bs
           in case find (\<lambda>s. fst s = btype currentBall) spots of
                None \<Rightarrow> bs1
              | Some targetSpot \<Rightarrow>
                  updateFirst (\<lambda>b. bid b = bid ball)
                    (\<lambda>b. b\<lparr>pos := respawnPos bs1 (bid currentBall) (snd targetSpot)\<rparr>) bs1))"

section \<open>Rule engine: the state of a frame\<close>

text \<open>
  The per-shot record \<open>turnStatusRef.current\<close>; its fields \<open>potted\<close> and \<open>foul\<close>
  are \<open>tsPotted\<close> and \<open>tsFoul\<close>.
\<close>

record TurnStatus =
  tsPotted :: bool
  tsFoul :: bool
  firstHitType :: "BallType option"
  pottedBall :: "Ball option"
  pushShot :: bool

record FoulInfo =
  foul_active :: bool
  foul_message :: string
  foul_points :: real

text \<open>
  The React state and refs that \<open>handleTurnEnd\<close>, \<open>switchTurn\<close> and \<open>respawnBall\<close> read and
  write.  \<open>balls\<close> is \<open>ballsRef.current\<close>, \<open>currentBreak\<close> is \<open>currentBreakRef.current\<close>.
  The status line, the player statistics and the visual effects are presentation only
  and are left out.
\<close>

record Game =
  balls :: "Ball list"
  targetState :: TargetState
  isFreeBall :: bool
  gameState :: GameState
  gameMode :: GameMode
  currentPlayer :: Player
  scoreP1 :: real
  scoreP2 :: real
  currentBreak :: real
  showColorSelection :: bool
  ballInHand :: bool
  foulDecisionNeeded :: bool
  offerFreeBall :: bool
  isClearance :: bool
  spin :: Spin
  foulNotification :: FoulInfo
  touchingBall :: "Ball option"
  turnStatus :: TurnStatus

definition freshTurnStatus :: TurnStatus where
  "freshTurnStatus =
     \<lparr>tsPotted = False, tsFoul = False, firstHitType = None, pottedBall = None, pushShot = False\<rparr>"

text \<open>
  The turn status that \<open>takeShot\<close> starts a shot with: a shot into a touching ball
  (\<open>dot > 0.05\<close>) is a push shot and a foul; a shot away from a touching ball that is a
  legal target counts as having hit it first.
\<close>

definition takeShotStatus :: "Vector2 \<Rightarrow> Ball \<Rightarrow> Ball option \<Rightarrow> bool \<Rightarrow> TargetState \<Rightarrow> TurnStatus" where
  "takeShotStatus dir cueBall touching fb tgt =
     (case touching of
        None \<Rightarrow> freshTurnStatus
      | Some tb \<Rightarrow>
          (let vecToTouching = vecNorm (vecSub (pos tb) (pos cueBall));
               dot = vecDot dir vecToTouching
           in if dot > 0.05 then freshTurnStatus\<lparr>pushShot := True, tsFoul := True\<rparr>
              else
                (let tType = btype tb;
                     isValidTouch =
                       (if fb then True
                        else if tgt = TRed then tType = RED
                        else if tgt = TColor then tType \<noteq> RED
                        else TBall tType = tgt)
                 in if isValidTouch then freshTurnStatus\<lparr>firstHitType := Some tType\<rparr>
                    else freshTurnStatus)))"

text \<open>What \<open>handlePot\<close> and \<open>onCollision\<close> record in the turn status during a shot.\<close>

definition handlePot :: "Ball \<Rightarrow> TurnStatus \<Rightarrow> TurnStatus" where
  "handlePot ball st =
     (if btype ball = CUE then st\<lparr>tsFoul := True\<rparr>
      else st\<lparr>tsPotted := True, pottedBall := Some ball\<rparr>)"

definition onCollision :: "Ball \<Rightarrow> Ball \<Rightarrow> TurnStatus \<Rightarrow> TurnStatus" where
  "onCollision b1 b2 st =
     (if firstHitType st = None then
        (if btype b1 = CUE then st\<lparr>firstHitType := Some (btype b2)\<rparr>
         else if btype b2 = CUE then st\<lparr>firstHitType := Some (btype b1)\<rparr>
         else st)
      else st)"

section \<open>Rule engine: fouls\<close>

definition targetVal :: "TargetState \<Rightarrow> real" where
  "targetVal tgt =
     (case tgt of
        TColor \<Rightarrow> 4
      | TBall t \<Rightarrow> if t = RED then 4 else getBallValue t)"

definition validHit :: "bool \<Rightarrow> TargetState \<Rightarrow> BallType \<Rightarrow> bool" where
  "validHit fb tgt h =
     (if fb then (if h = RED then True else if h \<noteq> CUE then True else False)
      else if tgt = TRed then (if h = RED then True else False)
      else if tgt = TColor then (if h \<noteq> RED \<and> h \<noteq> CUE then True else False)
      else (if TBall h = tgt then True else False))"

definition validPot :: "bool \<Rightarrow> TargetState \<Rightarrow> BallType \<Rightarrow> bool" where
  "validPot fb tgt t =
     (if fb then (if t \<noteq> CUE then True else False)
      else if tgt = TRed then (if t = RED then True else False)
      else if tgt = TColor then (if t \<noteq> RED \<and> t \<noteq> CUE then True else False)
      else (if TBall t = tgt then True else False))"

definition wrongHitMsg :: "TargetState \<Rightarrow> BallType \<Rightarrow> string" where
  "wrongHitMsg tgt h =
     (if tgt = TRed then ''Hit Color first''
      else if tgt = TColor then ''Hit Red first''
      else ''Hit wrong ball (Hit '' @ ballTypeName h @ '')'')"

definition wrongPotMsg :: "TargetState \<Rightarrow> BallType \<Rightarrow> string" where
  "wrongPotMsg tgt t =
     (if tgt = TRed then ''Potted '' @ ballTypeName t
      else if tgt = TColor then ''Potted RED''
      else ''Potted wrong color'')"

text \<open>
  The first part of \<open>handleTurnEnd\<close>: the values of the locals \<open>isFoul\<close>, \<open>penalty\<close> and
  \<open>foulMsg\<close> when the two foul blocks have run.  \<open>contactFoul\<close> is the
  \<open>if / else if\<close> chain, \<open>foulCheck\<close> adds the block on the potted ball.
\<close>

definition contactFoul :: "TurnStatus \<Rightarrow> TargetState \<Rightarrow> bool \<Rightarrow> Ball option \<Rightarrow> bool \<times> real \<times> string" where
  "contactFoul st tgt fb touching =
     (if pushShot st then
        (let touchingVal = (case touching of Some tb \<Rightarrow> getBallValue (btype tb) | None \<Rightarrow> 4)
         in (True, max 4 (max (targetVal tgt) touchingVal), ''Push Shot (Hit into touching ball)''))
      else if tsFoul st \<and> \<not> pushShot st then
        (let hitVal = (case firstHitType st of Some h \<Rightarrow> getBallValue h | None \<Rightarrow> 4)
         in (True, max 4 (max (targetVal tgt) hitVal), ''Cue ball potted''))
      else (case firstHitType st of
              None \<Rightarrow> (True, max 4 (targetVal tgt), ''Missed all balls'')
            | Some h \<Rightarrow>
                if \<not> validHit fb tgt h
                then (True, max 4 (max (getBallValue h) (targetVal tgt)), wrongHitMsg tgt h)
                else (tsFoul st, 4, ''FOUL'')))"

definition foulCheck :: "TurnStatus \<Rightarrow> TargetState \<Rightarrow> bool \<Rightarrow> Ball option \<Rightarrow> bool \<times> real \<times> string" where
  "foulCheck st tgt fb touching =
     (case contactFoul st tgt fb touching of
        (isFoul, penalty, foulMsg) \<Rightarrow>
          (if \<not> isFoul \<and> tsPotted st then
             (case pottedBall st of
                None \<Rightarrow> (isFoul, penalty, foulMsg)
              | Some pb \<Rightarrow>
                  if \<not> validPot fb tgt (btype pb)
                  then (True, max 4 (max (getBallValue (btype pb)) (targetVal tgt)), wrongPotMsg tgt (btype pb))
                  else (isFoul, penalty, foulMsg))
           else (isFoul, penalty, foulMsg)))"

section \<open>Rule engine: turn switch and end of shot\<close>

text \<open>
  \<open>balls.filter(b => !b.potted && b.type !== CUE).sort((a,b) => a.value - b.value)\<close>;
  the sort of the source is stable, as \<open>sort_key\<close> is.
\<close>

definition sortedOnTable :: "Ball list \<Rightarrow> Ball list" where
  "sortedOnTable bs = sort_key bvalue (filter (\<lambda>b. \<not> potted b \<and> btype b \<noteq> CUE) bs)"

definition redsExist :: "Ball list \<Rightarrow> bool" where
  "redsExist bs = list_ex (\<lambda>b. btype b = RED \<and> \<not> potted b) bs"

definition switchTurn :: "Game \<Rightarrow> Game" where
  "switchTurn g =
     (let g1 = g\<lparr>currentBreak := 0, isFreeBall := False, spin := \<lparr>spin_x = 0, spin_y = 0\<rparr>\<rparr>;
          g2 = (if redsExist (balls g1) then g1\<lparr>targetState := TRed, isClearance := False\<rparr>
                else (case sortedOnTable (balls g1) of
                        [] \<Rightarrow> g1
                      | b # _ \<Rightarrow> g1\<lparr>targetState := TBall (btype b), isClearance := True\<rparr>))
      in g2\<lparr>currentPlayer :=
              (if gameMode g = SINGLE_PLAYER then (if currentPlayer g2 = ONE then AI else ONE)
               else (if currentPlayer g2 = ONE then TWO else ONE))\<rparr>)"

definition handleColorSelect :: "BallType \<Rightarrow> Game \<Rightarrow> Game" where
  "handleColorSelect ballType g =
     (if gameMode g = ONLINE_CLIENT then g
      else g\<lparr>targetState := TBall ballType, showColorSelection := False\<rparr>)"

definition addPenalty :: "real \<Rightarrow> Game \<Rightarrow> Game" where
  "addPenalty penalty g =
     (if currentPlayer g = ONE then g\<lparr>scoreP2 := scoreP2 g + penalty\<rparr>
      else g\<lparr>scoreP1 := scoreP1 g + penalty\<rparr>)"

definition addPoints :: "real \<Rightarrow> Game \<Rightarrow> Game" where
  "addPoints pts g =
     (if currentPlayer g = ONE then g\<lparr>scoreP1 := scoreP1 g + pts\<rparr>
      else g\<lparr>scoreP2 := scoreP2 g + pts\<rparr>)"

text \<open>The foul branch of \<open>handleTurnEnd\<close>.  The test \<open>!ballInHand\<close> reads the value of
  the render that created the callback, that is the value before this call.\<close>

definition foulBranch :: "Game \<Rightarrow> real \<Rightarrow> string \<Rightarrow> Game" where
  "foulBranch g penalty foulMsg =
     (let g1 = addPenalty penalty
                 (g\<lparr>foulNotification := \<lparr>foul_active = True, foul_message = foulMsg, foul_points = penalty\<rparr>\<rparr>);
          g2 = (case find (\<lambda>b. btype b = CUE) (balls g1) of
                  None \<Rightarrow> g1
                | Some cueBall \<Rightarrow>
                    if potted cueBall
                    then g1\<lparr>balls := updateFirst (\<lambda>b. btype b = CUE)
                                        (\<lambda>b. b\<lparr>potted := False, vel := zeroVec, pos := \<lparr>vx = 140, vy = 220\<rparr>\<rparr>)
                                        (balls g1),
                            ballInHand := True\<rparr>
                    else g1);
          g3 = (case pottedBall (turnStatus g) of
                  None \<Rightarrow> g2
                | Some pb \<Rightarrow> if btype pb \<noteq> RED then g2\<lparr>balls := respawnBall pb (balls g2)\<rparr> else g2);
          g4 = switchTurn g3;
          snookered =
            (if \<not> ballInHand g then
               (let nextTarget =
                      (if \<not> redsExist (balls g4) then
                         (case sortedOnTable (balls g4) of [] \<Rightarrow> TRed | b # _ \<Rightarrow> TBall (btype b))
                       else TRed)
                in checkIsSnookered (balls g4) nextTarget)
             else False)
      in g4\<lparr>offerFreeBall := snookered, foulDecisionNeeded := True\<rparr>)"

text \<open>The branch of \<open>handleTurnEnd\<close> for a pot without a foul.\<close>

definition potBranch :: "Game \<Rightarrow> Ball \<Rightarrow> Game" where
  "potBranch g pb =
     (let pts = (if isFreeBall g \<and> btype pb \<noteq> RED then 1 else bvalue pb);
          g1 = addPoints pts (g\<lparr>currentBreak := currentBreak g + pts\<rparr>);
          remainingReds = length (filter (\<lambda>b. btype b = RED \<and> \<not> potted b) (balls g1))
      in if isFreeBall g then
           g1\<lparr>balls := respawnBall pb (balls g1), targetState := TColor, showColorSelection := True,
              isFreeBall := False, isClearance := False\<rparr>
         else if btype pb = RED then
           g1\<lparr>targetState := TColor, showColorSelection := True, isClearance := False\<rparr>
         else if targetState g = TColor then
           (let g2 = g1\<lparr>balls := respawnBall pb (balls g1)\<rparr>
            in if remainingReds > 0 then g2\<lparr>targetState := TRed, isClearance := False\<rparr>
               else g2\<lparr>targetState := TBall YELLOW, isClearance := True\<rparr>)
         else if remainingReds > 0 then
           g1\<lparr>balls := respawnBall pb (balls g1), targetState := TRed\<rparr>
         else if TBall (btype pb) = targetState g then
           (case sortedOnTable (balls g1) of
              [] \<Rightarrow> g1\<lparr>gameState := GAME_OVER\<rparr>
            | b # _ \<Rightarrow> g1\<lparr>targetState := TBall (btype b)\<rparr>)
         else switchTurn g1)"

definition handleTurnEnd :: "Game \<Rightarrow> Game" where
  "handleTurnEnd g0 =
     (let g = g0\<lparr>spin := \<lparr>spin_x = 0, spin_y = 0\<rparr>\<rparr>;
          st = turnStatus g
      in case foulCheck st (targetState g) (isFreeBall g) (touchingBall g) of
           (isFoul, penalty, foulMsg) \<Rightarrow>
             if isFoul then foulBranch g penalty foulMsg
             else if tsPotted st then
               (case pottedBall st of
                  None \<Rightarrow> switchTurn g
                | Some pb \<Rightarrow> potBranch g pb)
             else switchTurn g)"

section \<open>Physics engine\<close>

definition ROLLING_RESISTANCE :: real where
  "ROLLING_RESISTANCE = 0.12"

definition WALL_RESTITUTION :: real where
  "WALL_RESTITUTION = 0.80"

definition BALL_RESTITUTION :: real where
  "BALL_RESTITUTION = 0.92"

definition STOP_THRESHOLD :: real where
  "STOP_THRESHOLD = 0.15"

definition SUB_STEPS :: nat where
  "SUB_STEPS = 10"

definition SPIN_POWER_FACTOR :: real where
  "SPIN_POWER_FACTOR = 4.5"

definition PENETRATION_SLOP :: real where
  "PENETRATION_SLOP = 0.05"

text \<open>
  The callbacks \<open>onPot\<close> and \<open>onCollision\<close> only observe the balls, so the model returns
  the calls in the order they are made.  A ball object is named by its position in the
  array \<open>balls\<close>: \<open>PotEvent i\<close> is the call \<open>onPot(balls[i])\<close>, and
  \<open>CollisionEvent i j impact\<close> is \<open>onCollision(balls[i], balls[j], impact)\<close>.
\<close>

datatype Event = PotEvent nat | CollisionEvent nat nat real

definition pockets :: "TableConfig \<Rightarrow> Vector2 list" where
  "pockets table =
     (let pOffset = 0 in
      [\<lparr>vx = cushionWidth table - pOffset, vy = cushionWidth table - pOffset\<rparr>,
       \<lparr>vx = width table / 2, vy = cushionWidth table - 8\<rparr>,
       \<lparr>vx = width table - (cushionWidth table - pOffset), vy = cushionWidth table - pOffset\<rparr>,
       \<lparr>vx = cushionWidth table - pOffset, vy = height table - (cushionWidth table - pOffset)\<rparr>,
       \<lparr>vx = width table / 2, vy = height table + 8 - cushionWidth table\<rparr>,
       \<lparr>vx = width table - (cushionWidth table - pOffset), vy = height table - (cushionWidth table - pOffset)\<rparr>])"

definition inPocketZone :: "TableConfig \<Rightarrow> Vector2 \<Rightarrow> bool" where
  "inPocketZone table p = list_ex (\<lambda>pk. vecDist p pk < pocketRadius table * 1.1) (pockets table)"

text \<open>Step 1, integration, for one ball of \<open>activeBalls\<close>.\<close>

definition integrate :: "real \<Rightarrow> Ball \<Rightarrow> Ball" where
  "integrate subDt ball =
     (if vecLen (vel ball) > 0.001
      then ball\<lparr>pos := vecAdd (pos ball) (vecMult (vel ball) subDt)\<rparr>
      else ball)"

text \<open>Step 2, pocket detection: the inner loop over the pockets stops at the first hit.\<close>

definition inPocket :: "TableConfig \<Rightarrow> Ball \<Rightarrow> bool" where
  "inPocket table ball =
     list_ex (\<lambda>pocket. vecDist (pos ball) pocket < pocketRadius table * 0.95) (pockets table)"

text \<open>
  \<open>act\<close> tells for each position of \<open>balls\<close> whether the ball is in \<open>activeBalls\<close>, the
  balls that were not potted when \<open>updatePhysics\<close> was called.
\<close>

fun pocketDetect :: "TableConfig \<Rightarrow> nat \<Rightarrow> bool list \<Rightarrow> Ball list \<Rightarrow> Ball list \<times> Event list" where
  "pocketDetect table i (a # act) (ball # rest) =
     (case pocketDetect table (Suc i) act rest of
        (rest', evs) \<Rightarrow>
          if a \<and> \<not> potted ball \<and> inPocket table ball
          then (ball\<lparr>potted := True, vel := zeroVec\<rparr> # rest', PotEvent i # evs)
          else (ball # rest', evs))"
| "pocketDetect table i act rest = (rest, [])"

text \<open>Step 3, wall collision of one ball that is not potted and not in a pocket zone.\<close>

definition wallCollide :: "TableConfig \<Rightarrow> Spin \<Rightarrow> Ball \<Rightarrow> Ball" where
  "wallCollide table sp ball =
     (let wallMinX = cushionWidth table;
          wallMaxX = width table - cushionWidth table;
          wallMinY = cushionWidth table;
          wallMaxY = height table - cushionWidth table;
          (px, velx, collidedX) =
            (if vx (pos ball) < wallMinX + radius ball
             then (wallMinX + radius ball, \<bar>vx (vel ball)\<bar> * WALL_RESTITUTION, True)
             else if vx (pos ball) > wallMaxX - radius ball
             then (wallMaxX - radius ball, - \<bar>vx (vel ball)\<bar> * WALL_RESTITUTION, True)
             else (vx (pos ball), vx (vel ball), False));
          (py, vely, collidedY) =
            (if vy (pos ball) < wallMinY + radius ball
             then (wallMinY + radius ball, \<bar>vy (vel ball)\<bar> * WALL_RESTITUTION, True)
             else if vy (pos ball) > wallMaxY - radius ball
             then (wallMaxY - radius ball, - \<bar>vy (vel ball)\<bar> * WALL_RESTITUTION, True)
             else (vy (pos ball), vy (vel ball), False));
          ball1 = ball\<lparr>pos := \<lparr>vx = px, vy = py\<rparr>, vel := \<lparr>vx = velx, vy = vely\<rparr>\<rparr>
      in if btype ball1 = CUE \<and> spin_x sp \<noteq> 0 then
           (let speed = vecLen (vel ball1) in
            if speed > 1 then
              (let spinForce = spin_x sp * 0.6;
                   velx2 = (if collidedY then velx + spinForce * (speed * 0.15) else velx);
                   vely2 = (if collidedX then vely + spinForce * (speed * 0.15) else vely)
               in ball1\<lparr>vel := \<lparr>vx = velx2, vy = vely2\<rparr>\<rparr>)
            else ball1)
         else ball1)"

definition wallStep :: "TableConfig \<Rightarrow> Spin \<Rightarrow> bool \<Rightarrow> Ball \<Rightarrow> Ball" where
  "wallStep table sp a ball =
     (if a \<and> \<not> potted ball \<and> \<not> inPocketZone table (pos ball) then wallCollide table sp ball else ball)"

text \<open>
  Step 4, one pair \<open>b1 = balls[i]\<close>, \<open>b2 = balls[j]\<close> of the ball-ball loop.  The result is
  the two balls after the body and the \<open>onCollision\<close> call, if one is made.
\<close>

definition spinImpulse :: "Spin \<Rightarrow> Vector2 \<Rightarrow> real \<Rightarrow> Ball \<Rightarrow> Ball" where
  "spinImpulse sp dirToObject impactForce cueBall =
     (let spinMagnitude = impactForce * SPIN_POWER_FACTOR;
          spinImpulseY = vecMult dirToObject (spin_y sp * spinMagnitude * 0.30);
          tangent = \<lparr>vx = - vy dirToObject, vy = vx dirToObject\<rparr>;
          spinImpulseX = vecMult tangent (spin_x sp * spinMagnitude * 0.08)
      in cueBall\<lparr>vel := vecAdd (vecAdd (vel cueBall) spinImpulseY) spinImpulseX\<rparr>)"

definition collideBalls :: "Spin \<Rightarrow> Ball \<Rightarrow> Ball \<Rightarrow> Ball \<times> Ball \<times> real option" where
  "collideBalls sp b1 b2 =
     (let dst = vecDist (pos b1) (pos b2);
          minDist = radius b1 + radius b2
      in if dst < minDist then
           (let n = vecNorm (vecSub (pos b1) (pos b2));
                overlap = minDist - dst;
                correctionMag = max 0 (overlap - PENETRATION_SLOP);
                correction = vecMult n (correctionMag * 0.5);
                b1a = (if correctionMag > 0 then b1\<lparr>pos := vecAdd (pos b1) correction\<rparr> else b1);
                b2a = (if correctionMag > 0 then b2\<lparr>pos := vecSub (pos b2) correction\<rparr> else b2);
                relVel = vecSub (vel b1a) (vel b2a);
                velAlongNormal = vecDot relVel n;
                ev = (if velAlongNormal \<le> 0.05 then Some \<bar>velAlongNormal\<bar> else None)
            in if velAlongNormal > 0 then (b1a, b2a, ev)
               else
                 (let j = - (1 + BALL_RESTITUTION) * velAlongNormal;
                      impulse = j / 2;
                      impulseVec = vecMult n impulse;
                      b1b = b1a\<lparr>vel := vecAdd (vel b1a) impulseVec\<rparr>;
                      b2b = b2a\<lparr>vel := vecSub (vel b2a) impulseVec\<rparr>;
                      isCue1 = (btype b1b = CUE);
                      isCue2 = (btype b2b = CUE)
                  in if (isCue1 \<or> isCue2) \<and> (spin_x sp \<noteq> 0 \<or> spin_y sp \<noteq> 0) then
                       (let impactForce = \<bar>velAlongNormal\<bar> in
                        if impactForce > 0.1 then
                          (if isCue1 then (spinImpulse sp (vecMult n (-1)) impactForce b1b, b2b, ev)
                           else (b1b, spinImpulse sp n impactForce b2b, ev))
                        else (b1b, b2b, ev))
                     else (b1b, b2b, ev)))
         else (b1, b2, None))"

definition collidePair :: "Spin \<Rightarrow> nat \<times> nat \<Rightarrow> Ball list \<times> Event list \<Rightarrow> Ball list \<times> Event list" where
  "collidePair sp ij st =
     (case ij of (i, j) \<Rightarrow>
      case st of (bs, evs) \<Rightarrow>
      case collideBalls sp (bs ! i) (bs ! j) of
        (b1, b2, ev) \<Rightarrow>
          (bs[i := b1, j := b2],
           evs @ (case ev of None \<Rightarrow> [] | Some impact \<Rightarrow> [CollisionEvent i j impact])))"

text \<open>The pairs \<open>(i, j)\<close> with \<open>i\<close> before \<open>j\<close>, in the order of the nested loops.\<close>

fun pairsOf :: "'a list \<Rightarrow> ('a \<times> 'a) list" where
  "pairsOf [] = []"
| "pairsOf (a # rest) = map (Pair a) rest @ pairsOf rest"

text \<open>\<open>currentActive\<close> as positions in \<open>balls\<close>: the balls of \<open>activeBalls\<close> not potted now.\<close>

definition currentActive :: "bool list \<Rightarrow> Ball list \<Rightarrow> nat list" where
  "currentActive act bs = filter (\<lambda>i. act ! i \<and> \<not> potted (bs ! i)) [0..<length bs]"

definition ballCollisions :: "Spin \<Rightarrow> bool list \<Rightarrow> Ball list \<times> Event list \<Rightarrow> Ball list \<times> Event list" where
  "ballCollisions sp act st = fold (collidePair sp) (pairsOf (currentActive act (fst st))) st"

definition subStep :: "TableConfig \<Rightarrow> Spin \<Rightarrow> real \<Rightarrow> bool list \<Rightarrow> Ball list \<times> Event list \<Rightarrow> Ball list \<times> Event list" where
  "subStep table sp subDt act st =
     (case st of (bs, evs) \<Rightarrow>
        (let bs1 = map2 (\<lambda>a ball. if a then integrate subDt ball else ball) act bs
         in case pocketDetect table 0 act bs1 of
              (bs2, pots) \<Rightarrow>
                (let bs3 = map2 (wallStep table sp) act bs2
                 in ballCollisions sp act (bs3, evs @ pots))))"

text \<open>The friction loop body, for one ball of \<open>balls\<close>.\<close>

definition effectiveDrag :: "real \<Rightarrow> Spin \<Rightarrow> Ball \<Rightarrow> real" where
  "effectiveDrag timeScale sp ball =
     (let drag = ROLLING_RESISTANCE * timeScale
      in if btype ball = CUE then drag * (1.0 - (spin_y sp * 0.2)) else drag)"

definition applyFriction :: "real \<Rightarrow> Spin \<Rightarrow> Ball \<Rightarrow> Ball" where
  "applyFriction timeScale sp ball =
     (if \<not> potted ball then
        (let speed = vecLen (vel ball) in
         if speed < STOP_THRESHOLD then ball\<lparr>vel := zeroVec\<rparr>
         else
           (let drop = effectiveDrag timeScale sp ball;
                newSpeed = max 0 (speed - drop)
            in if newSpeed < STOP_THRESHOLD * 2
               then ball\<lparr>vel := vecMult (vecNorm (vel ball)) (newSpeed * 0.90)\<rparr>
               else ball\<lparr>vel := vecMult (vecNorm (vel ball)) newSpeed\<rparr>))
      else ball)"

definition updatePhysics :: "Ball list \<Rightarrow> TableConfig \<Rightarrow> Spin \<Rightarrow> real \<Rightarrow> Ball list \<times> Event list" where
  "updatePhysics bs table sp dt =
     (let timeScale = dt * 60;
          act = map (\<lambda>b. \<not> potted b) bs;
          subDt = timeScale / real SUB_STEPS
      in case (subStep table sp subDt act ^^ SUB_STEPS) (bs, []) of
           (bs', evs) \<Rightarrow> (map (applyFriction timeScale sp) bs', evs))"

section \<open>Trajectory predictor\<close>

text \<open>
  A distance of the source that may be \<open>Infinity\<close> is a \<open>real option\<close>, where \<open>None\<close> is
  \<open>Infinity\<close>.  \<open>minInf d v\<close> is \<open>Math.min(d, v)\<close> for a finite \<open>v\<close>, \<open>minInf2\<close> is \<open>Math.min\<close> of
  two such distances and \<open>lessInf\<close> is \<open><\<close> on them.
\<close>

fun minInf :: "real option \<Rightarrow> real \<Rightarrow> real option" where
  "minInf None v = Some v"
| "minInf (Some d) v = Some (min d v)"

fun minInf2 :: "real option \<Rightarrow> real option \<Rightarrow> real option" where
  "minInf2 None e = e"
| "minInf2 (Some d) None = Some d"
| "minInf2 (Some d) (Some e) = Some (min d e)"

fun lessInf :: "real option \<Rightarrow> real option \<Rightarrow> bool" where
  "lessInf None e = False"
| "lessInf (Some d) None = True"
| "lessInf (Some d) (Some e) = (d < e)"

record Trajectory =
  points :: "Vector2 list"
  ghostBall :: "Vector2 option"
  opacity :: real

text \<open>Part 1 of \<open>calculatePreciseTrajectory\<close>: the distance to the walls along \<open>dir\<close>.\<close>

definition distToWall :: "TableConfig \<Rightarrow> Vector2 \<Rightarrow> Vector2 \<Rightarrow> real option" where
  "distToWall table startPos dir =
     (let minX = cushionWidth table + BALL_RADIUS;
          maxX = width table - cushionWidth table - BALL_RADIUS;
          minY = cushionWidth table + BALL_RADIUS;
          maxY = height table - cushionWidth table - BALL_RADIUS;
          d0 = None;
          d1 = (if vx dir > 0 then minInf d0 ((maxX - vx startPos) / vx dir)
                else if vx dir < 0 then minInf d0 ((minX - vx startPos) / vx dir)
                else d0);
          d2 = (if vy dir > 0 then minInf d1 ((maxY - vy startPos) / vy dir)
                else if vy dir < 0 then minInf d1 ((minY - vy startPos) / vy dir)
                else d1)
      in d2)"

text \<open>
  Part 2, the body of the loop over the balls for one ball that is neither the cue ball
  nor potted: the parameter \<open>t\<close> of the ray-circle intersection, if the test
  \<open>delta >= 0\<close> and the test \<open>t > 0\<close> pass.
\<close>

definition rayHit :: "Vector2 \<Rightarrow> Vector2 \<Rightarrow> Ball \<Rightarrow> real option" where
  "rayHit startPos dir b =
     (let f = vecSub startPos (pos b);
          a = 1;
          bCoeff = 2 * vecDot f dir;
          c = vecDot f f - (4 * BALL_RADIUS * BALL_RADIUS);
          delta = bCoeff * bCoeff - 4 * a * c
      in if delta \<ge> 0 then
           (let t = (- bCoeff - sqrt delta) / (2 * a)
            in if t > 0 then Some t else None)
         else None)"

text \<open>The loop, with the variables \<open>closestHitDist\<close> and \<open>hitBall\<close> as accumulator.\<close>

fun hitLoop :: "Vector2 \<Rightarrow> Vector2 \<Rightarrow> Ball list \<Rightarrow> real option \<times> Ball option \<Rightarrow> real option \<times> Ball option" where
  "hitLoop startPos dir [] acc = acc"
| "hitLoop startPos dir (b # rest) acc =
     (if btype b = CUE \<or> potted b then hitLoop startPos dir rest acc
      else (case rayHit startPos dir b of
              None \<Rightarrow> hitLoop startPos dir rest acc
            | Some t \<Rightarrow>
                if lessInf (Some t) (fst acc) then hitLoop startPos dir rest (Some t, Some b)
                else hitLoop startPos dir rest acc))"

text \<open>
  The result is \<open>None\<close> when \<open>finalDist\<close> is \<open>Infinity\<close>: the coordinates of \<open>endPos\<close> are then
  not numbers (\<open>0 * Infinity\<close>), and the model has no such point.
\<close>

definition calculatePreciseTrajectory :: "Vector2 \<Rightarrow> Vector2 \<Rightarrow> Ball list \<Rightarrow> TableConfig \<Rightarrow> Trajectory option" where
  "calculatePreciseTrajectory startPos direction bs table =
     (let dir = vecNorm direction;
          wall = distToWall table startPos dir;
          closestHitDist = fst (hitLoop startPos dir bs (None, None));
          finalDist = minInf2 wall closestHitDist
      in case finalDist of
           None \<Rightarrow> None
         | Some fd \<Rightarrow>
             (let endPos = vecAdd startPos (vecMult dir fd)
              in Some \<lparr>points = [startPos, endPos],
                       ghostBall = (if lessInf closestHitDist wall then Some endPos else None),
                       opacity = 1\<rparr>))"

section \<open>AI shot planner\<close>

text \<open>
  The result of \<open>calculateAIShot\<close>; the field \<open>power\<close> is \<open>shotPower\<close>.  The values that the
  calls of \<open>Math.random()\<close> return are parameters of the model, one field for each call
  site, so that every outcome of the draws is covered.
\<close>

record AIShot =
  aimDir :: Vector2
  shotPower :: real

record Draws =
  safetyPowerDraw :: real
  randomDirX :: real
  randomDirY :: real
  errorAngleDraw :: real
  powerErrorDraw :: real

record PotCandidate =
  pc_ball :: Ball
  pc_dist :: real
  pc_angleDiff :: real
  pc_pocket :: Vector2
  pc_confidence :: real

text \<open>Step 1: the legal targets, with the fallback to all balls on the table.\<close>

definition aiLegalTargets :: "Ball list \<Rightarrow> TargetState \<Rightarrow> Ball list" where
  "aiLegalTargets bs tgt =
     (let activeBalls = filter (\<lambda>b. \<not> potted b \<and> btype b \<noteq> CUE) bs;
          lts = (if tgt = TRed then filter (\<lambda>b. btype b = RED) activeBalls
                 else if tgt = TColor then filter (\<lambda>b. btype b \<noteq> RED) activeBalls
                 else filter (\<lambda>b. TBall (btype b) = tgt) activeBalls)
      in if length lts = 0 \<and> length activeBalls > 0 then activeBalls else lts)"

text \<open>
  Step 2, the body of the loops over targets and pockets: \<open>None\<close> is the \<open>continue\<close> for a
  cut angle above 1.4.
\<close>

definition evalPot :: "Ball \<Rightarrow> real \<Rightarrow> Ball \<Rightarrow> Vector2 \<Rightarrow> PotCandidate option" where
  "evalPot cueBall maxDist target pocket =
     (let toPocket = vecSub pocket (pos target);
          dirToPocket = vecNorm toPocket;
          impactPos = vecSub (pos target) (vecMult dirToPocket (radius target * 2));
          toImpact = vecSub impactPos (pos cueBall);
          distToImpact = vecLen toImpact;
          vecCueToTarget = vecNorm (vecSub (pos target) (pos cueBall));
          cutAngle = arccos (vecDot vecCueToTarget dirToPocket)
      in if cutAngle > 1.4 then None
         else
           (let angleScore = max 0 (1 - (cutAngle / 1.3));
                distScore = max 0 (1 - (distToImpact / maxDist));
                confidence = (angleScore * 0.7) + (distScore * 0.3)
            in Some \<lparr>pc_ball = target, pc_dist = distToImpact, pc_angleDiff = cutAngle,
                     pc_pocket = pocket, pc_confidence = confidence\<rparr>))"

definition betterPot :: "PotCandidate option \<Rightarrow> PotCandidate option \<Rightarrow> PotCandidate option" where
  "betterPot bestPot cand =
     (case cand of
        None \<Rightarrow> bestPot
      | Some c \<Rightarrow>
          (case bestPot of
             None \<Rightarrow> Some c
           | Some best \<Rightarrow> if pc_confidence c > pc_confidence best then Some c else Some best))"

definition findBestPot :: "Ball \<Rightarrow> TableConfig \<Rightarrow> Ball list \<Rightarrow> PotCandidate option" where
  "findBestPot cueBall table lts =
     (let maxDist = sqrt (width table * width table + height table * height table)
      in fold (\<lambda>target best.
                 fold (\<lambda>pocket best'. betterPot best' (evalPot cueBall maxDist target pocket))
                   (pockets table) best)
           lts None)"

definition safetyThreshold :: "Difficulty \<Rightarrow> real" where
  "safetyThreshold difficulty =
     (case difficulty of EASY \<Rightarrow> 0.05 | MEDIUM \<Rightarrow> 0.4 | HARD \<Rightarrow> 0.6)"

text \<open>The safety branch: the legal target farthest from the cue ball.\<close>

definition farthestTarget :: "Ball \<Rightarrow> Ball list \<Rightarrow> Ball option" where
  "farthestTarget cueBall lts =
     fst (fold (\<lambda>t (safetyTarget, bestSafetyDist).
                  (let d = vecDist (pos t) (pos cueBall)
                   in if d > bestSafetyDist then (Some t, d) else (safetyTarget, bestSafetyDist)))
            lts
            (case lts of [] \<Rightarrow> None | t # _ \<Rightarrow> Some t, 0))"

text \<open>Step 3: the direction and the power before the error is applied.\<close>

definition planShot :: "Ball \<Rightarrow> Ball list \<Rightarrow> TableConfig \<Rightarrow> Difficulty \<Rightarrow> Draws \<Rightarrow> Vector2 \<times> real" where
  "planShot cueBall lts table difficulty rnd =
     (let bestPot = findBestPot cueBall table lts;
          attempt = (case bestPot of None \<Rightarrow> False
                     | Some best \<Rightarrow> pc_confidence best > safetyThreshold difficulty)
      in if attempt then
           (case bestPot of
              None \<Rightarrow> (\<lparr>vx = 1, vy = 0\<rparr>, 50)
            | Some best \<Rightarrow>
                (let target = pc_ball best;
                     toPocket = vecNorm (vecSub (pc_pocket best) (pos target));
                     impactPos = vecSub (pos target) (vecMult toPocket (radius target * 2));
                     finalDir = vecNorm (vecSub impactPos (pos cueBall));
                     pw = 35 + (pc_dist best / 8)
                 in (finalDir, if difficulty = HARD then min 85 (pw + 10) else pw)))
         else
           (case farthestTarget cueBall lts of
              Some safetyTarget \<Rightarrow>
                (let toCenter = vecSub (pos safetyTarget) (pos cueBall);
                     dir = vecNorm toCenter;
                     perp = \<lparr>vx = - vy dir, vy = vx dir\<rparr>;
                     thinFactor = (if difficulty = HARD then 1.0 else 0.5);
                     offset = vecMult perp (radius safetyTarget * 2 * thinFactor);
                     safetyPoint = vecAdd (pos safetyTarget) offset;
                     finalDir = vecNorm (vecSub safetyPoint (pos cueBall))
                 in (finalDir, if difficulty = HARD then 45 else 30 + safetyPowerDraw rnd * 40))
            | None \<Rightarrow> (\<lparr>vx = randomDirX rnd, vy = randomDirY rnd\<rparr>, 20)))"

text \<open>Step 4: the aiming error and the power error, and the clamp of the power.\<close>

definition calculateAIShot :: "Ball \<Rightarrow> Ball list \<Rightarrow> TableConfig \<Rightarrow> Difficulty \<Rightarrow> TargetState \<Rightarrow> Draws \<Rightarrow> AIShot" where
  "calculateAIShot cueBall bs table difficulty tgt rnd =
     (case planShot cueBall (aiLegalTargets bs tgt) table difficulty rnd of
        (finalDir, pw) \<Rightarrow>
          (let errorAngle = (case difficulty of
                               EASY \<Rightarrow> (errorAngleDraw rnd - 0.5) * 0.12
                             | MEDIUM \<Rightarrow> (errorAngleDraw rnd - 0.5) * 0.05
                             | HARD \<Rightarrow> (errorAngleDraw rnd - 0.5) * 0.008);
               powerError = (case difficulty of
                               EASY \<Rightarrow> 0.8 + powerErrorDraw rnd * 0.4
                             | MEDIUM \<Rightarrow> 0.9 + powerErrorDraw rnd * 0.2
                             | HARD \<Rightarrow> 0.98 + powerErrorDraw rnd * 0.04);
               erroredDir = \<lparr>vx = vx finalDir * cos errorAngle - vy finalDir * sin errorAngle,
                             vy = vx finalDir * sin errorAngle + vy finalDir * cos errorAngle\<rparr>
           in \<lparr>aimDir = erroredDir, shotPower = min 100 (max 5 (pw * powerError))\<rparr>))"

section \<open>The foul precedence as the specification words it\<close>

text \<open>
  The five foul conditions in the order of precedence of the specification: push shot,
  cue ball potted, no ball contacted, first contact not a legal target, potted ball not
  legal.  \<open>specFirstFoul\<close> is the first condition of the list that holds.
\<close>

datatype FoulKind = PushShot | CuePotted | NoContact | IllegalContact | IllegalPot

definition specConditions :: "TurnStatus \<Rightarrow> TargetState \<Rightarrow> bool \<Rightarrow> (bool \<times> FoulKind) list" where
  "specConditions st tgt fb =
     [(pushShot st, PushShot),
      (tsFoul st, CuePotted),
      (firstHitType st = None, NoContact),
      (case firstHitType st of None \<Rightarrow> False | Some h \<Rightarrow> \<not> validHit fb tgt h, IllegalContact),
      (tsPotted st \<and> (case pottedBall st of None \<Rightarrow> False | Some pb \<Rightarrow> \<not> validPot fb tgt (btype pb)), IllegalPot)]"

definition specFirstFoul :: "TurnStatus \<Rightarrow> TargetState \<Rightarrow> bool \<Rightarrow> FoulKind option" where
  "specFirstFoul st tgt fb = map_option snd (find fst (specConditions st tgt fb))"

definition specPenalty :: "FoulKind \<Rightarrow> TurnStatus \<Rightarrow> TargetState \<Rightarrow> Ball option \<Rightarrow> real" where
  "specPenalty k st tgt touching =
     (case k of
        PushShot \<Rightarrow> max 4 (max (targetVal tgt) (case touching of Some tb \<Rightarrow> getBallValue (btype tb) | None \<Rightarrow> 4))
      | CuePotted \<Rightarrow> max 4 (max (targetVal tgt) (case firstHitType st of Some h \<Rightarrow> getBallValue h | None \<Rightarrow> 4))
      | NoContact \<Rightarrow> max 4 (targetVal tgt)
      | IllegalContact \<Rightarrow> max 4 (max (targetVal tgt) (case firstHitType st of Some h \<Rightarrow> getBallValue h | None \<Rightarrow> 0))
      | IllegalPot \<Rightarrow> max 4 (max (targetVal tgt) (case pottedBall st of Some pb \<Rightarrow> getBallValue (btype pb) | None \<Rightarrow> 0)))"

definition specMsg :: "FoulKind \<Rightarrow> TurnStatus \<Rightarrow> TargetState \<Rightarrow> string" where
  "specMsg k st tgt =
     (case k of
        PushShot \<Rightarrow> ''Push Shot (Hit into touching ball)''
      | CuePotted \<Rightarrow> ''Cue ball potted''
      | NoContact \<Rightarrow> ''Missed all balls''
      | IllegalContact \<Rightarrow> (case firstHitType st of Some h \<Rightarrow> wrongHitMsg tgt h | None \<Rightarrow> [])
      | IllegalPot \<Rightarrow> (case pottedBall st of Some pb \<Rightarrow> wrongPotMsg tgt (btype pb) | None \<Rightarrow> []))"

section \<open>Example data\<close>

definition exampleBalls :: "Ball list" where
  "exampleBalls =
     [createBall 0 CUE 150 230 ''#fefefe'' 0,
      createBall 1 YELLOW 170 260 ''#eab308'' 2,
      createBall 6 BLACK 720 200 ''#111111'' 7,
      createBall 7 RED 620 200 ''#dc2626'' 1]"

definition exampleGame :: Game where
  "exampleGame =
     \<lparr>balls = exampleBalls, targetState = TRed, isFreeBall = False, gameState = PLAYING,
      gameMode = TWO_PLAYER, currentPlayer = ONE, scoreP1 = 0, scoreP2 = 0, currentBreak = 0,
      showColorSelection = False, ballInHand = False, foulDecisionNeeded = False,
      offerFreeBall = False, isClearance = False, spin = \<lparr>spin_x = 0, spin_y = 0\<rparr>,
      foulNotification = \<lparr>foul_active = False, foul_message = [], foul_points = 0\<rparr>,
      touchingBall = None, turnStatus = freshTurnStatus\<rparr>"

section \<open>The respawn policy as the specification words it\<close>

text \<open>
  The respawn policy as the specification words it: the designated spot of each colour,
  "occupied" meaning another ball on the table closer than two ball radii, the six spots
  in the order black, pink, blue, brown, green, yellow, and the overflow location.
\<close>

definition designatedSpot :: "BallType \<Rightarrow> Vector2" where
  "designatedSpot t =
     (case t of
        BLACK \<Rightarrow> \<lparr>vx = 720, vy = 200\<rparr>
      | PINK \<Rightarrow> \<lparr>vx = 600, vy = 200\<rparr>
      | BLUE \<Rightarrow> \<lparr>vx = 400, vy = 200\<rparr>
      | BROWN \<Rightarrow> \<lparr>vx = 170, vy = 200\<rparr>
      | GREEN \<Rightarrow> \<lparr>vx = 170, vy = 140\<rparr>
      | YELLOW \<Rightarrow> \<lparr>vx = 170, vy = 260\<rparr>
      | _ \<Rightarrow> zeroVec)"

definition specOccupied :: "Ball list \<Rightarrow> Ball \<Rightarrow> Vector2 \<Rightarrow> bool" where
  "specOccupied bs cb q = (\<exists>b\<in>set bs. \<not> potted b \<and> bid b \<noteq> bid cb \<and> vecDist (pos b) q < 2 * BALL_RADIUS)"

definition specRespawnPos :: "Ball list \<Rightarrow> Ball \<Rightarrow> Vector2" where
  "specRespawnPos bs cb =
     (if \<not> specOccupied bs cb (designatedSpot (btype cb)) then designatedSpot (btype cb)
      else (case filter (\<lambda>q. \<not> specOccupied bs cb q)
                   (map designatedSpot [BLACK, PINK, BLUE, BROWN, GREEN, YELLOW]) of
              q # _ \<Rightarrow> q
            | [] \<Rightarrow> \<lparr>vx = 749.425, vy = 200\<rparr>))"

definition respawnExample :: "Ball list" where
  "respawnExample =
     [createBall 0 CUE 150 230 ''#fefefe'' 0,
      createBall 7 RED 715 200 ''#dc2626'' 1,
      (createBall 6 BLACK 58 50 ''#111111'' 7)\<lparr>potted := True\<rparr>]"

section \<open>The snooker check as the specification words it\<close>

text \<open>
  The snooker check as the specification words it.  A legal target is a ball on the
  table of the kind the target state names.  A ball blocks the line from \<open>start\<close> to the
  target when its projection on the line falls inside the segment and its centre is
  closer to the line than 1.95 times its radius.  The line is clear when no other ball on
  the table, the cue ball apart, blocks it.
\<close>

definition specLegalTarget :: "TargetState \<Rightarrow> Ball \<Rightarrow> bool" where
  "specLegalTarget tgt b =
     (\<not> potted b \<and>
      (case tgt of
         TColor \<Rightarrow> btype b \<noteq> RED \<and> btype b \<noteq> CUE
       | TBall c \<Rightarrow> btype b = c))"

definition specBlocks :: "Vector2 \<Rightarrow> Ball \<Rightarrow> Ball \<Rightarrow> bool" where
  "specBlocks start target b =
     (let dir = vecNorm (vecSub (pos target) start);
          d = vecDot (vecSub (pos b) start) dir
      in 0 \<le> d \<and> d \<le> vecDist (pos target) start
         \<and> vecDist (vecAdd start (vecMult dir d)) (pos b) < 1.95 * radius b)"

definition specClearLine :: "Ball list \<Rightarrow> Vector2 \<Rightarrow> Ball \<Rightarrow> bool" where
  "specClearLine bs start target =
     (\<not> (\<exists>b\<in>set bs. b \<noteq> target \<and> \<not> potted b \<and> btype b \<noteq> CUE \<and> specBlocks start target b))"

definition snookerExample :: "Ball list" where
  "snookerExample =
     [createBall 0 CUE 100 200 ''#fefefe'' 0,
      createBall 7 RED 300 200 ''#dc2626'' 1,
      createBall 1 YELLOW 200 200 ''#eab308'' 2]"

section \<open>Positions of the clearance phase\<close>

text \<open>A ball is on the table when it is not potted and is not the cue ball.\<close>

definition onTable :: "Ball \<Rightarrow> bool" where
  "onTable b = (\<not> potted b \<and> btype b \<noteq> CUE)"

definition coloursOnTable :: "Ball list" where
  "coloursOnTable =
     [createBall 0 CUE 100 100 ''#fefefe'' 0,
      createBall 1 YELLOW 170 260 ''#eab308'' 2,
      createBall 2 GREEN 170 140 ''#16a34a'' 3,
      (createBall 3 BROWN 42 42 ''#92400e'' 4)\<lparr>potted := True\<rparr>,
      createBall 4 BLUE 400 200 ''#2563eb'' 5,
      createBall 5 PINK 600 200 ''#ec4899'' 6,
      createBall 6 BLACK 720 200 ''#111111'' 7]"

text \<open>
  A clearance position after a foul: no reds, yellow is the ball on, a free ball has been
  granted, and the striker has hit and potted the brown as the free ball.
\<close>

definition freeBallClearance :: Game where
  "freeBallClearance =
     \<lparr>balls = coloursOnTable, targetState = TBall YELLOW, isFreeBall = True, gameState = PLAYING,
      gameMode = TWO_PLAYER, currentPlayer = ONE, scoreP1 = 0, scoreP2 = 0, currentBreak = 0,
      showColorSelection = False, ballInHand = False, foulDecisionNeeded = False,
      offerFreeBall = False, isClearance = True, spin = \<lparr>spin_x = 0, spin_y = 0\<rparr>,
      foulNotification = \<lparr>foul_active = False, foul_message = [], foul_points = 0\<rparr>,
      touchingBall = None,
      turnStatus = \<lparr>tsPotted = True, tsFoul = False, firstHitType = Some BROWN,
                    pottedBall = Some (coloursOnTable ! 3), pushShot = False\<rparr>\<rparr>"

text \<open>
  The same position without the free ball: yellow is the ball on and has been potted.
\<close>

definition yellowPotted :: Game where
  "yellowPotted =
     freeBallClearance
       \<lparr>balls := [createBall 0 CUE 100 100 ''#fefefe'' 0,
                  (createBall 1 YELLOW 42 42 ''#eab308'' 2)\<lparr>potted := True\<rparr>,
                  createBall 2 GREEN 170 140 ''#16a34a'' 3,
                  createBall 6 BLACK 720 200 ''#111111'' 7],
        isFreeBall := False,
        turnStatus := \<lparr>tsPotted = True, tsFoul = False, firstHitType = Some YELLOW,
                        pottedBall = Some ((createBall 1 YELLOW 42 42 ''#eab308'' 2)\<lparr>potted := True\<rparr>),
                        pushShot = False\<rparr>\<rparr>"

section \<open>Friction: auxiliary notions and a rolling cue ball\<close>


definition noSpin :: Spin where
  "noSpin = \<lparr>spin_x = 0, spin_y = 0\<rparr>"



section \<open>Physics engine: invariant of the sub-step loop\<close>

text \<open>
  The invariant of the sub-step loop: \<open>act\<close> marks the balls that were on the table at
  entry; a ball not marked is potted, and a marked ball that is potted now has been
  captured during this call and has velocity zero.
\<close>

definition physInv :: "bool list \<Rightarrow> Ball list \<Rightarrow> bool" where
  "physInv act bs =
     (length act = length bs
      \<and> (\<forall>i<length bs. (\<not> act ! i \<longrightarrow> potted (bs ! i))
                        \<and> (act ! i \<and> potted (bs ! i) \<longrightarrow> vel (bs ! i) = zeroVec)))"

definition potCount :: "Event list \<Rightarrow> nat \<Rightarrow> nat" where
  "potCount evs i = count_list evs (PotEvent i)"

definition captured :: "TableConfig \<Rightarrow> bool \<Rightarrow> Ball \<Rightarrow> bool" where
  "captured table a b = (a \<and> \<not> potted b \<and> inPocket table b)"

definition pocketExample :: "Ball list" where
  "pocketExample =
     [(createBall 7 RED 30 30 ''#dc2626'' 1)\<lparr>potted := True\<rparr>,
      createBall 8 RED 42 42 ''#dc2626'' 1]"

section \<open>Kinetic energy\<close>



section \<open>Binary64 arithmetic in the friction loop\<close>

text \<open>
  A JavaScript number is an IEEE 754 binary64 number, and the result of \<open>+\<close>, \<open>-\<close>, \<open>*\<close>,
  \<open>/\<close> and of reading a decimal literal is the exact result rounded to the nearest
  binary64 number, a tie going to the number with an even significand; so is the result
  of \<open>Math.sqrt\<close>, the square root of IEEE 754.
  \<open>roundHalfEven\<close> rounds a real number to the nearest integer in this way.  The binary64
  numbers around \<open>x\<close> are the multiples of \<open>2 powi ulpExp x\<close>: the significand has 53
  bits, and below \<open>2 powi (- 1022)\<close> the spacing stays \<open>2 powi (- 1074)\<close>.  \<open>fl x\<close> is the
  binary64 number that \<open>x\<close> is rounded to.  A magnitude of \<open>2 powi 1024\<close> or more, which the
  machine turns into \<open>Infinity\<close>, is not modelled; none occurs below.
\<close>

definition roundHalfEven :: "real \<Rightarrow> int" where
  "roundHalfEven x =
     (let f = \<lfloor>x\<rfloor>; d = x - of_int f
      in if d < 1 / 2 then f else if d > 1 / 2 then f + 1 else if even f then f else f + 1)"

definition ulpExp :: "real \<Rightarrow> int" where
  "ulpExp x = max (\<lfloor>log 2 \<bar>x\<bar>\<rfloor> - 52) (- 1074)"

definition fl :: "real \<Rightarrow> real" where
  "fl x = (if x = 0 then 0 else of_int (roundHalfEven (x / 2 powi ulpExp x)) * 2 powi ulpExp x)"






section \<open>A shot along the centre line into a red ball near the left cushion\<close>

text \<open>
  \<open>onLine b x v\<close> is the ball \<open>b\<close> put on the line \<open>y = 200\<close> at \<open>x\<close>, moving along the line
  with velocity \<open>v\<close>.  In \<open>cushionShot\<close> the cue ball moves left towards a red ball at rest:
  it hits the red ball in the first sub-step of a call of \<open>updatePhysics\<close> with
  \<open>dt = 1 / 60\<close>, and the red ball reaches the left cushion in the last sub-step.
\<close>

definition onLine :: "Ball \<Rightarrow> real \<Rightarrow> real \<Rightarrow> Ball" where
  "onLine b x v = b\<lparr>pos := \<lparr>vx = x, vy = 200\<rparr>, vel := \<lparr>vx = v, vy = 0\<rparr>\<rparr>"


section \<open>The trajectory as the specification words it\<close>

text \<open>
  The geometry in the words of the specification.  The ray meets the ghost-ball circle of
  a ball (radius twice the ball radius) at distance \<open>t\<close> when \<open>t\<close> is positive and the point
  of the ray at distance \<open>t\<close> lies on the circle; the start point is outside the circle when
  it is farther than two ball radii from the centre of the ball.
\<close>

definition specOnCircle :: "Vector2 \<Rightarrow> Vector2 \<Rightarrow> Ball \<Rightarrow> real \<Rightarrow> bool" where
  "specOnCircle startPos dir b t =
     (0 < t \<and> vecDist (vecAdd startPos (vecMult dir t)) (pos b) = 2 * BALL_RADIUS)"

definition specOutside :: "Vector2 \<Rightarrow> Ball \<Rightarrow> bool" where
  "specOutside startPos b = (vecDist startPos (pos b) > 2 * BALL_RADIUS)"

definition specEligible :: "Ball \<Rightarrow> bool" where
  "specEligible b = (btype b \<noteq> CUE \<and> \<not> potted b)"

text \<open>The distance to the wall of one axis, \<open>None\<close> when the ray is parallel to it.\<close>

definition specAxisDist :: "real \<Rightarrow> real \<Rightarrow> real \<Rightarrow> real \<Rightarrow> real option" where
  "specAxisDist lo hi s d =
     (if d > 0 then Some ((hi - s) / d) else if d < 0 then Some ((lo - s) / d) else None)"

text \<open>\<open>leInf\<close> is \<open>\<le>\<close> on distances that may be \<open>Infinity\<close>.\<close>

definition leInf :: "real option \<Rightarrow> real option \<Rightarrow> bool" where
  "leInf a b = (\<not> lessInf b a)"

text \<open>
  The cue ball at the start point, a red ball whose centre is 18.46 from the start point,
  inside the ghost-ball circle of radius 18.5 (the physics engine leaves an overlap of up
  to 0.05 uncorrected), and a red ball 100 ahead of the start point.
\<close>

definition cueAtStart :: Ball where
  "cueAtStart = createBall 0 CUE 100 100 ''#fefefe'' 0"

definition redNear :: Ball where
  "redNear = createBall 7 RED 118.46 100 ''#dc2626'' 1"

definition redAhead :: Ball where
  "redAhead = createBall 7 RED 200 100 ''#dc2626'' 1"

section \<open>Vector facts\<close>

lemma vecLen_nonneg: "0 \<le> vecLen v"
  by (simp add: vecLen_def)

lemma vecLen_zero_iff: "vecLen v = 0 \<longleftrightarrow> vx v = 0 \<and> vy v = 0"
  by (simp add: vecLen_def sum_squares_eq_zero_iff)

lemma vecLen_sq: "(vecLen v)\<^sup>2 = vecDot v v"
  by (simp add: vecLen_def vecDot_def)





section \<open>Fouls at the end of a shot\<close>

text \<open>Where the flags of the turn status come from.\<close>

lemma takeShotStatus_push:
  "pushShot (takeShotStatus dir cueBall touching fb tgt) \<longleftrightarrow>
     (\<exists>tb. touching = Some tb
         \<and> vecDot dir (vecNorm (vecSub (pos tb) (pos cueBall))) > 0.05)"
  by (cases touching) (simp_all add: takeShotStatus_def freshTurnStatus_def Let_def)

lemma handlePot_flags:
  "tsFoul (handlePot ball st) = (btype ball = CUE \<or> tsFoul st)"
  "tsPotted (handlePot ball st) = (btype ball \<noteq> CUE \<or> tsPotted st)"
  "pottedBall (handlePot ball st) = (if btype ball = CUE then pottedBall st else Some ball)"
  by (simp_all add: handlePot_def)

lemma onCollision_first:
  "firstHitType (onCollision b1 b2 freshTurnStatus) =
     (if btype b1 = CUE then Some (btype b2) else if btype b2 = CUE then Some (btype b1) else None)"
  by (simp add: onCollision_def freshTurnStatus_def)

lemma foulCheck_spec:
  "foulCheck st tgt fb touching =
     (case specFirstFoul st tgt fb of
        None \<Rightarrow> (False, 4, ''FOUL'')
      | Some k \<Rightarrow> (True, specPenalty k st tgt touching, specMsg k st tgt))"
  by (auto simp: foulCheck_def contactFoul_def specFirstFoul_def specConditions_def specPenalty_def
      specMsg_def Let_def max.commute split: option.splits)

lemma foulCheck_penalty: "4 \<le> fst (snd (foulCheck st tgt fb touching))"
  by (auto simp: foulCheck_def contactFoul_def Let_def split: option.splits prod.splits)

lemma switchTurn_keeps:
  "balls (switchTurn g) = balls g"
  "scoreP1 (switchTurn g) = scoreP1 g"
  "scoreP2 (switchTurn g) = scoreP2 g"
  "gameState (switchTurn g) = gameState g"
  "foulNotification (switchTurn g) = foulNotification g"
  "showColorSelection (switchTurn g) = showColorSelection g"
  by (simp_all add: switchTurn_def Let_def split: list.splits)

lemma foulBranch_notification:
  "foulNotification (foulBranch g penalty msg) =
     \<lparr>foul_active = True, foul_message = msg, foul_points = penalty\<rparr>"
  by (simp add: foulBranch_def Let_def switchTurn_keeps addPenalty_def split: option.splits)

lemma foulBranch_scores:
  "scoreP1 (foulBranch g penalty msg) = (if currentPlayer g = ONE then scoreP1 g else scoreP1 g + penalty)"
  "scoreP2 (foulBranch g penalty msg) = (if currentPlayer g = ONE then scoreP2 g + penalty else scoreP2 g)"
  by (simp_all add: foulBranch_def Let_def switchTurn_keeps addPenalty_def split: option.splits)

lemma foulBranch_decision: "foulDecisionNeeded (foulBranch g penalty msg)"
  by (simp add: foulBranch_def Let_def)

lemma handleTurnEnd_foul:
  assumes "foulCheck (turnStatus g) (targetState g) (isFreeBall g) (touchingBall g) = (True, penalty, msg)"
  shows "handleTurnEnd g = foulBranch (g\<lparr>spin := \<lparr>spin_x = 0, spin_y = 0\<rparr>\<rparr>) penalty msg"
  using assms by (simp add: handleTurnEnd_def Let_def)

text \<open>
  Claim C1.  At the end of a shot the foul conditions are tried in the order push shot,
  cue ball potted, no ball contacted, first contact not a legal target, potted ball not
  legal; the first one that holds gives the single foul of the shot, with its message and
  its penalty, and every penalty is a maximum with 4, so at least 4.  \<open>handleTurnEnd\<close>
  reports exactly this foul and adds this penalty to the score of the opponent.
\<close>

theorem foul_precedence:
  fixes g :: Game
  defines "st \<equiv> turnStatus g" and "tgt \<equiv> targetState g"
  defines "r \<equiv> foulCheck st tgt (isFreeBall g) (touchingBall g)"
  shows "r = (case specFirstFoul st tgt (isFreeBall g) of
                None \<Rightarrow> (False, 4, ''FOUL'')
              | Some k \<Rightarrow> (True, specPenalty k st tgt (touchingBall g), specMsg k st tgt))
       \<and> 4 \<le> fst (snd r)
       \<and> (fst r \<longrightarrow>
            foulNotification (handleTurnEnd g) =
              \<lparr>foul_active = True, foul_message = snd (snd r), foul_points = fst (snd r)\<rparr>
          \<and> scoreP1 (handleTurnEnd g) = (if currentPlayer g = ONE then scoreP1 g else scoreP1 g + fst (snd r))
          \<and> scoreP2 (handleTurnEnd g) = (if currentPlayer g = ONE then scoreP2 g + fst (snd r) else scoreP2 g)
          \<and> foulDecisionNeeded (handleTurnEnd g))"
proof -
  have a: "r = (case specFirstFoul st tgt (isFreeBall g) of
                None \<Rightarrow> (False, 4, ''FOUL'')
              | Some k \<Rightarrow> (True, specPenalty k st tgt (touchingBall g), specMsg k st tgt))"
    unfolding r_def by (rule foulCheck_spec)
  have b: "4 \<le> fst (snd r)"
    unfolding r_def by (rule foulCheck_penalty)
  have c: "foulNotification (handleTurnEnd g) =
              \<lparr>foul_active = True, foul_message = snd (snd r), foul_points = fst (snd r)\<rparr>
          \<and> scoreP1 (handleTurnEnd g) = (if currentPlayer g = ONE then scoreP1 g else scoreP1 g + fst (snd r))
          \<and> scoreP2 (handleTurnEnd g) = (if currentPlayer g = ONE then scoreP2 g + fst (snd r) else scoreP2 g)
          \<and> foulDecisionNeeded (handleTurnEnd g)" if "fst r"
  proof -
    from that have "r = (True, fst (snd r), snd (snd r))"
      by (cases r) simp
    then have "handleTurnEnd g = foulBranch (g\<lparr>spin := \<lparr>spin_x = 0, spin_y = 0\<rparr>\<rparr>) (fst (snd r)) (snd (snd r))"
      unfolding r_def st_def tgt_def by (rule handleTurnEnd_foul)
    then show ?thesis
      by (simp add: foulBranch_notification foulBranch_scores foulBranch_decision)
  qed
  from a b c show ?thesis by blast
qed

theorem foul_precedence_witness:
  "foulNotification (handleTurnEnd exampleGame) =
     \<lparr>foul_active = True, foul_message = ''Missed all balls'', foul_points = 4\<rparr>
   \<and> scoreP2 (handleTurnEnd exampleGame) = 4"
  using foul_precedence [of exampleGame]
  by (simp add: exampleGame_def freshTurnStatus_def foulCheck_def contactFoul_def targetVal_def)

section \<open>Respawning a colour\<close>

lemma updateFirst_index:
  "find P bs = Some cb \<Longrightarrow>
     \<exists>i<length bs. bs ! i = cb \<and> (\<forall>k<i. \<not> P (bs ! k)) \<and> updateFirst P f bs = bs[i := f cb]"
proof (induction bs)
  case Nil
  then show ?case by simp
next
  case (Cons a bs)
  show ?case
  proof (cases "P a")
    case True
    with Cons.prems have "a = cb" by simp
    with True have "0 < length (a # bs) \<and> (a # bs) ! 0 = cb \<and> (\<forall>k<0. \<not> P ((a # bs) ! k))
        \<and> updateFirst P f (a # bs) = (a # bs)[0 := f cb]" by simp
    then show ?thesis by blast
  next
    case False
    with Cons.prems have "find P bs = Some cb" by simp
    from Cons.IH [OF this] obtain i where i: "i < length bs" "bs ! i = cb" "\<forall>k<i. \<not> P (bs ! k)"
      "updateFirst P f bs = bs[i := f cb]" by blast
    have "\<forall>k<Suc i. \<not> P ((a # bs) ! k)"
    proof (intro allI impI)
      fix k assume "k < Suc i"
      then show "\<not> P ((a # bs) ! k)" using False i(3) by (cases k) auto
    qed
    with i False have "Suc i < length (a # bs) \<and> (a # bs) ! Suc i = cb \<and> (\<forall>k<Suc i. \<not> P ((a # bs) ! k))
        \<and> updateFirst P f (a # bs) = (a # bs)[Suc i := f cb]" by simp
    then show ?thesis by blast
  qed
qed

lemma updateFirst_twice:
  "(\<And>b. P b \<Longrightarrow> P (f b)) \<Longrightarrow> updateFirst P g (updateFirst P f bs) = updateFirst P (\<lambda>b. g (f b)) bs"
  by (induction bs) auto

lemma isOccupied_updateFirst:
  "(\<And>b. bid (f b) = bid b) \<Longrightarrow>
     isOccupied (updateFirst (\<lambda>b. bid b = c) f bs) c p = isOccupied bs c p"
  by (induction bs) (auto simp: isOccupied_def)

lemma isOccupied_spec: "isOccupied bs (bid cb) q = specOccupied bs cb q"
  by (auto simp: isOccupied_def specOccupied_def list_ex_iff)

lemma spot_of_colour:
  "t \<noteq> CUE \<Longrightarrow> t \<noteq> RED \<Longrightarrow> find (\<lambda>s. fst s = t) spots = Some (t, designatedSpot t)"
  by (cases t) (simp_all add: spots_def designatedSpot_def CENTER_Y_def BAULK_X_def D_RADIUS_def)

lemma respawnPos_spec:
  "respawnPos bs (bid cb) (designatedSpot (btype cb)) = specRespawnPos bs cb"
  by (simp add: respawnPos_def specRespawnPos_def isOccupied_spec spots_def designatedSpot_def
      overflowSpot_def CENTER_Y_def BAULK_X_def D_RADIUS_def BALL_RADIUS_def)

lemma find_bid: "find (\<lambda>b. bid b = c) bs = Some cb \<Longrightarrow> bid cb = c"
  by (induction bs) (auto split: if_splits)

text \<open>
  Claim C8.  \<open>respawnBall\<close> on a colour ball of the table changes that ball only: it clears
  its potted flag, zeroes its velocity and places it at its own designated spot if no
  other ball on the table is within two ball radii of that spot, otherwise at the first
  unoccupied of the six spots in the order black, pink, blue, brown, green, yellow, and at
  the overflow location if all six are occupied.
\<close>

theorem respawnBall_colour:
  assumes found: "find (\<lambda>b. bid b = bid ball) bs = Some cb"
    and colour: "btype cb \<noteq> CUE" "btype cb \<noteq> RED"
  shows "\<exists>i<length bs. bs ! i = cb \<and> (\<forall>k<i. bid (bs ! k) \<noteq> bid ball)
           \<and> respawnBall ball bs =
               bs[i := cb\<lparr>potted := False, vel := zeroVec, pos := specRespawnPos bs cb\<rparr>]"
proof -
  let ?P = "\<lambda>b. bid b = bid ball"
  let ?f = "\<lambda>b::Ball. b\<lparr>potted := False, vel := zeroVec\<rparr>"
  let ?bs1 = "updateFirst ?P ?f bs"
  have idc: "bid cb = bid ball" using found by (rule find_bid)
  have occ: "isOccupied ?bs1 (bid cb) q = isOccupied bs (bid cb) q" for q
    unfolding idc by (rule isOccupied_updateFirst) simp
  have rp: "respawnPos ?bs1 (bid cb) (designatedSpot (btype cb)) = specRespawnPos bs cb"
    by (simp add: respawnPos_spec [symmetric] respawnPos_def occ)
  have "respawnBall ball bs =
          updateFirst ?P (\<lambda>b. b\<lparr>pos := specRespawnPos bs cb\<rparr>) ?bs1"
    using found spot_of_colour [OF colour] by (simp add: respawnBall_def Let_def rp)
  also have "\<dots> = updateFirst ?P (\<lambda>b. (?f b)\<lparr>pos := specRespawnPos bs cb\<rparr>) bs"
    by (rule updateFirst_twice) simp
  finally have eq: "respawnBall ball bs = updateFirst ?P (\<lambda>b. (?f b)\<lparr>pos := specRespawnPos bs cb\<rparr>) bs" .
  from updateFirst_index [OF found, of "\<lambda>b. (?f b)\<lparr>pos := specRespawnPos bs cb\<rparr>"]
  show ?thesis unfolding eq by simp
qed

lemma vecDist_less_iff:
  "0 \<le> r \<Longrightarrow> vecDist a b < r \<longleftrightarrow> (vx a - vx b)\<^sup>2 + (vy a - vy b)\<^sup>2 < r\<^sup>2"
proof -
  assume r: "0 \<le> r"
  have "vecDist a b < r \<longleftrightarrow> sqrt ((vx a - vx b)\<^sup>2 + (vy a - vy b)\<^sup>2) < sqrt (r\<^sup>2)"
    using r by (simp add: vecDist_def vecLen_def vecSub_def power2_eq_square)
  then show ?thesis by (simp only: real_sqrt_less_iff)
qed

lemma specOccupied_sq:
  "specOccupied bs cb q \<longleftrightarrow>
     (\<exists>b\<in>set bs. \<not> potted b \<and> bid b \<noteq> bid cb
         \<and> (vx (pos b) - vx q)\<^sup>2 + (vy (pos b) - vy q)\<^sup>2 < 342.25)"
proof -
  have "vecDist a q < 2 * BALL_RADIUS \<longleftrightarrow> (vx a - vx q)\<^sup>2 + (vy a - vy q)\<^sup>2 < 342.25" for a
    by (subst vecDist_less_iff) (simp_all add: BALL_RADIUS_def power2_eq_square)
  then show ?thesis by (simp add: specOccupied_def)
qed

theorem respawnBall_colour_witness:
  "respawnBall (respawnExample ! 2) respawnExample =
     [createBall 0 CUE 150 230 ''#fefefe'' 0,
      createBall 7 RED 715 200 ''#dc2626'' 1,
      createBall 6 BLACK 600 200 ''#111111'' 7]"
proof -
  have f: "find (\<lambda>b. bid b = bid (respawnExample ! 2)) respawnExample = Some (respawnExample ! 2)"
    by (simp add: respawnExample_def createBall_def)
  have c: "btype (respawnExample ! 2) \<noteq> CUE" "btype (respawnExample ! 2) \<noteq> RED"
    by (simp_all add: respawnExample_def createBall_def)
  have p: "specRespawnPos respawnExample (respawnExample ! 2) = \<lparr>vx = 600, vy = 200\<rparr>"
    by (simp add: specRespawnPos_def specOccupied_sq respawnExample_def createBall_def
        designatedSpot_def power2_eq_square)
  from respawnBall_colour [OF f c] obtain i where i: "i < length respawnExample"
    "respawnExample ! i = respawnExample ! 2"
    "respawnBall (respawnExample ! 2) respawnExample =
       respawnExample[i := (respawnExample ! 2)\<lparr>potted := False, vel := zeroVec, pos := specRespawnPos respawnExample (respawnExample ! 2)\<rparr>]"
    by blast
  from i(1) have "i = 0 \<or> i = 1 \<or> i = 2" by (auto simp: respawnExample_def)
  with i(2) have "i = 2" by (auto simp: respawnExample_def createBall_def)
  with i(3) p show ?thesis by (simp add: respawnExample_def createBall_def)
qed

section \<open>The snooker check\<close>

lemma canSeeLoop_iff:
  "canSeeLoop start dir dst target bs \<longleftrightarrow>
     (\<forall>b\<in>set bs. bid b = bid target \<or> btype b = CUE \<or> potted b \<or> \<not> obstructs start dir dst b)"
  by (induction bs) auto

lemma obstructs_spec:
  "obstructs start (vecNorm (vecSub (pos target) start)) (vecDist (pos target) start) b
     = specBlocks start target b"
  by (auto simp: obstructs_def specBlocks_def Let_def mult.commute)

lemma canSeeBall_iff:
  "canSeeBall start target bs \<longleftrightarrow>
     (\<forall>b\<in>set bs. bid b = bid target \<or> btype b = CUE \<or> potted b \<or> \<not> specBlocks start target b)"
  by (simp add: canSeeBall_def Let_def canSeeLoop_iff obstructs_spec)

lemma specClear_canSee: "specClearLine bs start target \<Longrightarrow> canSeeBall start target bs"
  by (auto simp: canSeeBall_iff specClearLine_def)

lemma canSee_specClear:
  "canSeeBall start target bs \<Longrightarrow> \<forall>b\<in>set bs. bid b = bid target \<longrightarrow> b = target
     \<Longrightarrow> specClearLine bs start target"
  by (auto simp: canSeeBall_iff specClearLine_def)

lemma anyVisible_iff: "anyVisible start bs lts \<longleftrightarrow> (\<exists>t\<in>set lts. canSeeBall start t bs)"
  by (induction lts) auto

lemma set_legalTargets: "set (legalTargets bs tgt) = {b \<in> set bs. specLegalTarget tgt b}"
  by (cases tgt) (auto simp: legalTargets_def specLegalTarget_def)

lemma checkIsSnookered_iff:
  "checkIsSnookered bs tgt \<longleftrightarrow>
     (\<exists>cueBall. find (\<lambda>b. btype b = CUE \<and> \<not> potted b) bs = Some cueBall
        \<and> (\<exists>t\<in>set bs. specLegalTarget tgt t)
        \<and> (\<forall>t\<in>set bs. specLegalTarget tgt t \<longrightarrow> \<not> canSeeBall (pos cueBall) t bs))"
proof -
  have ne: "legalTargets bs tgt = [] \<longleftrightarrow> \<not> (\<exists>t\<in>set bs. specLegalTarget tgt t)"
    using set_legalTargets [of bs tgt] by (metis (mono_tags, lifting) empty_Collect_eq set_empty)
  show ?thesis
    by (cases "find (\<lambda>b. btype b = CUE \<and> \<not> potted b) bs")
       (auto simp: checkIsSnookered_def Let_def anyVisible_iff set_legalTargets ne)
qed

lemma distinct_bid_eq:
  "distinct (map bid bs) \<Longrightarrow> b \<in> set bs \<Longrightarrow> t \<in> set bs \<Longrightarrow> bid b = bid t \<Longrightarrow> b = t"
  by (meson distinct_map inj_onD)

text \<open>
  Claim C6.  \<open>checkIsSnookered\<close> returns true only if every legal target is obstructed; if
  one legal target has a clear line of sight from the centre of the cue ball, it returns
  false.  With distinct ball ids it returns true exactly when there is a cue ball on the
  table, there is a legal target, and no legal target has a clear line.
\<close>

theorem checkIsSnookered_every_target:
  shows "(checkIsSnookered bs tgt \<longrightarrow>
           (\<exists>cueBall. find (\<lambda>b. btype b = CUE \<and> \<not> potted b) bs = Some cueBall
              \<and> (\<forall>t\<in>set bs. specLegalTarget tgt t \<longrightarrow> \<not> specClearLine bs (pos cueBall) t)))
       \<and> (\<forall>cueBall t. find (\<lambda>b. btype b = CUE \<and> \<not> potted b) bs = Some cueBall
              \<and> t \<in> set bs \<and> specLegalTarget tgt t \<and> specClearLine bs (pos cueBall) t
            \<longrightarrow> \<not> checkIsSnookered bs tgt)
       \<and> (distinct (map bid bs) \<longrightarrow>
            (checkIsSnookered bs tgt \<longleftrightarrow>
               (\<exists>cueBall. find (\<lambda>b. btype b = CUE \<and> \<not> potted b) bs = Some cueBall
                  \<and> (\<exists>t\<in>set bs. specLegalTarget tgt t)
                  \<and> (\<forall>t\<in>set bs. specLegalTarget tgt t \<longrightarrow> \<not> specClearLine bs (pos cueBall) t))))"
proof -
  have a: "checkIsSnookered bs tgt \<longrightarrow>
           (\<exists>cueBall. find (\<lambda>b. btype b = CUE \<and> \<not> potted b) bs = Some cueBall
              \<and> (\<forall>t\<in>set bs. specLegalTarget tgt t \<longrightarrow> \<not> specClearLine bs (pos cueBall) t))"
    unfolding checkIsSnookered_iff using specClear_canSee by blast
  have b: "\<forall>cueBall t. find (\<lambda>b. btype b = CUE \<and> \<not> potted b) bs = Some cueBall
              \<and> t \<in> set bs \<and> specLegalTarget tgt t \<and> specClearLine bs (pos cueBall) t
            \<longrightarrow> \<not> checkIsSnookered bs tgt"
    unfolding checkIsSnookered_iff using specClear_canSee by auto
  have c: "checkIsSnookered bs tgt \<longleftrightarrow>
               (\<exists>cueBall. find (\<lambda>b. btype b = CUE \<and> \<not> potted b) bs = Some cueBall
                  \<and> (\<exists>t\<in>set bs. specLegalTarget tgt t)
                  \<and> (\<forall>t\<in>set bs. specLegalTarget tgt t \<longrightarrow> \<not> specClearLine bs (pos cueBall) t))"
    if d: "distinct (map bid bs)"
  proof -
    have "canSeeBall start t bs \<longleftrightarrow> specClearLine bs start t" if "t \<in> set bs" for start t
      using that distinct_bid_eq [OF d] canSee_specClear [of start t bs] specClear_canSee [of bs start t]
      by blast
    then show ?thesis unfolding checkIsSnookered_iff by blast
  qed
  from a b c show ?thesis by blast
qed

lemma vecLen_axis [simp]: "vecLen \<lparr>vx = a, vy = 0\<rparr> = \<bar>a\<bar>" "vecLen \<lparr>vx = 0, vy = a\<rparr> = \<bar>a\<bar>"
  by (simp_all add: vecLen_def)

theorem checkIsSnookered_every_target_witness:
  "checkIsSnookered snookerExample TRed
   \<and> \<not> specClearLine snookerExample \<lparr>vx = 100, vy = 200\<rparr> (snookerExample ! 1)"
proof -
  have s: "checkIsSnookered snookerExample TRed"
    by (simp add: checkIsSnookered_def snookerExample_def createBall_def legalTargets_def
        canSeeBall_def obstructs_def vecNorm_def vecSub_def vecDist_def vecDot_def vecAdd_def
        vecMult_def BALL_RADIUS_def Let_def)
  have f: "find (\<lambda>b. btype b = CUE \<and> \<not> potted b) snookerExample = Some (snookerExample ! 0)"
    by (simp add: snookerExample_def createBall_def)
  have l: "snookerExample ! 1 \<in> set snookerExample \<and> specLegalTarget TRed (snookerExample ! 1)"
    by (simp add: snookerExample_def createBall_def specLegalTarget_def)
  from checkIsSnookered_every_target [of snookerExample TRed] s f l
  have "\<not> specClearLine snookerExample (pos (snookerExample ! 0)) (snookerExample ! 1)"
    by auto
  then have "\<not> specClearLine snookerExample \<lparr>vx = 100, vy = 200\<rparr> (snookerExample ! 1)"
    by (simp add: snookerExample_def createBall_def)
  with s show ?thesis by simp
qed

section \<open>The target after a pot\<close>

lemma sortedOnTable_Nil: "sortedOnTable bs = [] \<longleftrightarrow> (\<forall>b\<in>set bs. \<not> onTable b)"
proof -
  have "sortedOnTable bs = [] \<longleftrightarrow> set (sortedOnTable bs) = {}" by simp
  also have "\<dots> \<longleftrightarrow> (\<forall>b\<in>set bs. \<not> onTable b)"
    by (auto simp: sortedOnTable_def onTable_def)
  finally show ?thesis .
qed

lemma sortedOnTable_Cons:
  assumes "sortedOnTable bs = b # rest"
  shows "b \<in> set bs \<and> onTable b \<and> (\<forall>c\<in>set bs. onTable c \<longrightarrow> bvalue b \<le> bvalue c)"
proof -
  have s: "sorted (map bvalue (sortedOnTable bs))"
    by (simp add: sortedOnTable_def)
  have m: "set (sortedOnTable bs) = {c \<in> set bs. onTable c}"
    by (auto simp: sortedOnTable_def onTable_def)
  from m assms have "b \<in> set bs \<and> onTable b" by auto
  moreover have "bvalue b \<le> bvalue c" if "c \<in> set bs" "onTable c" for c
  proof -
    from that m assms have "c = b \<or> c \<in> set rest" by auto
    then show ?thesis using s assms by auto
  qed
  ultimately show ?thesis by blast
qed

lemma legit_validPot:
  assumes "foulCheck st tgt fb touching = (False, penalty, msg)" "tsPotted st" "pottedBall st = Some pb"
  shows "validPot fb tgt (btype pb)"
  using assms
  by (auto simp: foulCheck_def split: prod.splits if_splits)

lemma handleTurnEnd_pot:
  assumes "foulCheck (turnStatus g) (targetState g) (isFreeBall g) (touchingBall g) = (False, penalty, msg)"
    and "tsPotted (turnStatus g)" and "pottedBall (turnStatus g) = Some pb"
  shows "handleTurnEnd g = potBranch (g\<lparr>spin := \<lparr>spin_x = 0, spin_y = 0\<rparr>\<rparr>) pb"
  using assms by (simp add: handleTurnEnd_def Let_def)

lemma reds_count: "filter (\<lambda>b. btype b = RED \<and> \<not> potted b) bs = [] \<longleftrightarrow> \<not> redsExist bs"
  by (auto simp: redsExist_def list_ex_iff filter_empty_conv)

lemma addPoints_keeps [simp]:
  "balls (addPoints p g) = balls g" "targetState (addPoints p g) = targetState g"
  "gameState (addPoints p g) = gameState g" "isFreeBall (addPoints p g) = isFreeBall g"
  "showColorSelection (addPoints p g) = showColorSelection g"
  by (simp_all add: addPoints_def)

lemma potBranch_freeBall:
  "isFreeBall g \<Longrightarrow> targetState (potBranch g pb) = TColor \<and> showColorSelection (potBranch g pb)
     \<and> gameState (potBranch g pb) = gameState g"
  by (simp add: potBranch_def Let_def)

lemma potBranch_red:
  "\<not> isFreeBall g \<Longrightarrow> btype pb = RED \<Longrightarrow>
     targetState (potBranch g pb) = TColor \<and> showColorSelection (potBranch g pb)
     \<and> gameState (potBranch g pb) = gameState g"
  by (simp add: potBranch_def Let_def)

lemma potBranch_colour_reds:
  "\<not> isFreeBall g \<Longrightarrow> btype pb \<noteq> RED \<Longrightarrow> redsExist (balls g) \<Longrightarrow>
     targetState (potBranch g pb) = TRed \<and> gameState (potBranch g pb) = gameState g"
  by (simp add: potBranch_def Let_def reds_count)

lemma potBranch_any_colour_no_reds:
  "\<not> isFreeBall g \<Longrightarrow> btype pb \<noteq> RED \<Longrightarrow> \<not> redsExist (balls g) \<Longrightarrow> targetState g = TColor \<Longrightarrow>
     targetState (potBranch g pb) = TBall YELLOW \<and> gameState (potBranch g pb) = gameState g"
  by (simp add: potBranch_def Let_def reds_count)

lemma potBranch_clearance:
  "\<not> isFreeBall g \<Longrightarrow> btype pb \<noteq> RED \<Longrightarrow> \<not> redsExist (balls g) \<Longrightarrow> targetState g = TBall (btype pb) \<Longrightarrow>
     (case sortedOnTable (balls g) of
        [] \<Rightarrow> gameState (potBranch g pb) = GAME_OVER
      | b # _ \<Rightarrow> targetState (potBranch g pb) = TBall (btype b) \<and> gameState (potBranch g pb) = gameState g)"
  by (simp add: potBranch_def Let_def reds_count split: list.splits)

lemma getBallValue_inj: "getBallValue s = getBallValue t \<Longrightarrow> s = t"
  by (cases s; cases t) simp_all

lemma potBranch_gameMode [simp]: "gameMode (switchTurn g) = gameMode g"
  by (simp add: switchTurn_def Let_def split: list.splits)

lemma validPot_noFree:
  "validPot False tgt t \<Longrightarrow> (t = RED \<longrightarrow> tgt = TRed) \<and> (tgt \<noteq> TColor \<longrightarrow> tgt = TBall t)"
  by (auto simp: validPot_def split: if_splits)

text \<open>
  Claim C5, as amended.  After a pot without a foul: a free-ball pot always sets the
  target to COLOR and opens the nomination; otherwise, potting a red (the target was RED)
  sets the target to COLOR and opens the nomination, which sets the target to the
  nominated colour; potting a colour while reds remain sets the target to RED; potting a
  colour with the target still COLOR and no reds left sets the target to YELLOW; potting
  the target colour with no reds left sets the target to the lowest-valued ball still on
  the table, of a strictly higher rank than the potted colour when that was the lowest and
  the balls on the table carry the values of their distinct colours, and ends the frame
  (GAME_OVER) when no ball is left on the table.
\<close>

theorem target_after_pot:
  assumes legit: "foulCheck (turnStatus g) (targetState g) (isFreeBall g) (touchingBall g) = (False, penalty, msg)"
    and potted: "tsPotted (turnStatus g)" "pottedBall (turnStatus g) = Some pb"
  shows "(isFreeBall g \<longrightarrow>
            targetState (handleTurnEnd g) = TColor \<and> showColorSelection (handleTurnEnd g))
       \<and> (\<not> isFreeBall g \<and> btype pb = RED \<longrightarrow>
            targetState g = TRed \<and> targetState (handleTurnEnd g) = TColor
            \<and> showColorSelection (handleTurnEnd g)
            \<and> (gameMode g \<noteq> ONLINE_CLIENT \<longrightarrow>
                 targetState (handleColorSelect c (handleTurnEnd g)) = TBall c))
       \<and> (\<not> isFreeBall g \<and> btype pb \<noteq> RED \<and> redsExist (balls g) \<longrightarrow>
            targetState (handleTurnEnd g) = TRed)
       \<and> (\<not> isFreeBall g \<and> btype pb \<noteq> RED \<and> \<not> redsExist (balls g) \<and> targetState g = TColor \<longrightarrow>
            targetState (handleTurnEnd g) = TBall YELLOW)
       \<and> (\<not> isFreeBall g \<and> btype pb \<noteq> RED \<and> \<not> redsExist (balls g) \<and> targetState g \<noteq> TColor \<longrightarrow>
            targetState g = TBall (btype pb)
            \<and> (if \<exists>b\<in>set (balls g). onTable b
                then \<exists>b\<in>set (balls g). onTable b
                       \<and> (\<forall>c\<in>set (balls g). onTable c \<longrightarrow> bvalue b \<le> bvalue c)
                       \<and> targetState (handleTurnEnd g) = TBall (btype b)
                       \<and> gameState (handleTurnEnd g) = gameState g
                       \<and> ((\<forall>c\<in>set (balls g). onTable c \<longrightarrow>
                               bvalue c = getBallValue (btype c) \<and> btype c \<noteq> btype pb
                               \<and> getBallValue (btype pb) \<le> bvalue c)
                            \<longrightarrow> getBallValue (btype pb) < getBallValue (btype b))
                else gameState (handleTurnEnd g) = GAME_OVER))"
proof -
  let ?g = "g\<lparr>spin := \<lparr>spin_x = 0, spin_y = 0\<rparr>\<rparr>"
  have h: "handleTurnEnd g = potBranch ?g pb"
    using legit potted by (rule handleTurnEnd_pot)
  have vp: "validPot (isFreeBall g) (targetState g) (btype pb)"
    using legit potted by (rule legit_validPot)
  have a: "isFreeBall g \<longrightarrow>
            targetState (handleTurnEnd g) = TColor \<and> showColorSelection (handleTurnEnd g)"
    unfolding h using potBranch_freeBall [of ?g pb] by simp
  have b: "\<not> isFreeBall g \<and> btype pb = RED \<longrightarrow>
            targetState g = TRed \<and> targetState (handleTurnEnd g) = TColor
            \<and> showColorSelection (handleTurnEnd g)
            \<and> (gameMode g \<noteq> ONLINE_CLIENT \<longrightarrow>
                 targetState (handleColorSelect c (handleTurnEnd g)) = TBall c)"
  proof
    assume r: "\<not> isFreeBall g \<and> btype pb = RED"
    with vp have t: "targetState g = TRed" using validPot_noFree by auto
    have gm: "gameMode (potBranch ?g pb) = gameMode g"
      using r by (simp add: potBranch_def Let_def addPoints_def)
    from r potBranch_red [of ?g pb]
    have "targetState (potBranch ?g pb) = TColor \<and> showColorSelection (potBranch ?g pb)" by simp
    with t gm show "targetState g = TRed \<and> targetState (handleTurnEnd g) = TColor
            \<and> showColorSelection (handleTurnEnd g)
            \<and> (gameMode g \<noteq> ONLINE_CLIENT \<longrightarrow>
                 targetState (handleColorSelect c (handleTurnEnd g)) = TBall c)"
      unfolding h by (simp add: handleColorSelect_def)
  qed
  have c: "\<not> isFreeBall g \<and> btype pb \<noteq> RED \<and> redsExist (balls g) \<longrightarrow>
            targetState (handleTurnEnd g) = TRed"
    unfolding h using potBranch_colour_reds [of ?g pb] by simp
  have d: "\<not> isFreeBall g \<and> btype pb \<noteq> RED \<and> \<not> redsExist (balls g) \<and> targetState g = TColor \<longrightarrow>
            targetState (handleTurnEnd g) = TBall YELLOW"
    unfolding h using potBranch_any_colour_no_reds [of ?g pb] by simp
  have e: "\<not> isFreeBall g \<and> btype pb \<noteq> RED \<and> \<not> redsExist (balls g) \<and> targetState g \<noteq> TColor \<longrightarrow>
            targetState g = TBall (btype pb)
            \<and> (if \<exists>b\<in>set (balls g). onTable b
                then \<exists>b\<in>set (balls g). onTable b
                       \<and> (\<forall>c\<in>set (balls g). onTable c \<longrightarrow> bvalue b \<le> bvalue c)
                       \<and> targetState (handleTurnEnd g) = TBall (btype b)
                       \<and> gameState (handleTurnEnd g) = gameState g
                       \<and> ((\<forall>c\<in>set (balls g). onTable c \<longrightarrow>
                               bvalue c = getBallValue (btype c) \<and> btype c \<noteq> btype pb
                               \<and> getBallValue (btype pb) \<le> bvalue c)
                            \<longrightarrow> getBallValue (btype pb) < getBallValue (btype b))
                else gameState (handleTurnEnd g) = GAME_OVER)"
  proof
    assume r: "\<not> isFreeBall g \<and> btype pb \<noteq> RED \<and> \<not> redsExist (balls g) \<and> targetState g \<noteq> TColor"
    with vp have t: "targetState g = TBall (btype pb)" using validPot_noFree by auto
    from r t potBranch_clearance [of ?g pb]
    have pc: "case sortedOnTable (balls g) of
        [] \<Rightarrow> gameState (potBranch ?g pb) = GAME_OVER
      | b # _ \<Rightarrow> targetState (potBranch ?g pb) = TBall (btype b) \<and> gameState (potBranch ?g pb) = gameState g"
      by (simp split: list.splits)
    have "if \<exists>b\<in>set (balls g). onTable b
                then \<exists>b\<in>set (balls g). onTable b
                       \<and> (\<forall>c\<in>set (balls g). onTable c \<longrightarrow> bvalue b \<le> bvalue c)
                       \<and> targetState (handleTurnEnd g) = TBall (btype b)
                       \<and> gameState (handleTurnEnd g) = gameState g
                       \<and> ((\<forall>c\<in>set (balls g). onTable c \<longrightarrow>
                               bvalue c = getBallValue (btype c) \<and> btype c \<noteq> btype pb
                               \<and> getBallValue (btype pb) \<le> bvalue c)
                            \<longrightarrow> getBallValue (btype pb) < getBallValue (btype b))
                else gameState (handleTurnEnd g) = GAME_OVER"
    proof (cases "sortedOnTable (balls g)")
      case Nil
      then have "\<not> (\<exists>b\<in>set (balls g). onTable b)" by (simp add: sortedOnTable_Nil)
      with pc Nil show ?thesis unfolding h by simp
    next
      case (Cons b rest)
      from sortedOnTable_Cons [OF Cons]
      have b: "b \<in> set (balls g)" "onTable b" "\<forall>c\<in>set (balls g). onTable c \<longrightarrow> bvalue b \<le> bvalue c"
        by blast+
      have rank: "getBallValue (btype pb) < getBallValue (btype b)"
        if w: "\<forall>c\<in>set (balls g). onTable c \<longrightarrow>
                 bvalue c = getBallValue (btype c) \<and> btype c \<noteq> btype pb
                 \<and> getBallValue (btype pb) \<le> bvalue c"
      proof -
        from w b have "getBallValue (btype pb) \<le> getBallValue (btype b)" "btype b \<noteq> btype pb"
          by auto
        moreover from this(2) have "getBallValue (btype b) \<noteq> getBallValue (btype pb)"
          using getBallValue_inj by blast
        ultimately show ?thesis by simp
      qed
      from pc Cons have "targetState (handleTurnEnd g) = TBall (btype b)
          \<and> gameState (handleTurnEnd g) = gameState g"
        unfolding h by simp
      with b rank show ?thesis by auto
    qed
    with t show "targetState g = TBall (btype pb)
            \<and> (if \<exists>b\<in>set (balls g). onTable b
                then \<exists>b\<in>set (balls g). onTable b
                       \<and> (\<forall>c\<in>set (balls g). onTable c \<longrightarrow> bvalue b \<le> bvalue c)
                       \<and> targetState (handleTurnEnd g) = TBall (btype b)
                       \<and> gameState (handleTurnEnd g) = gameState g
                       \<and> ((\<forall>c\<in>set (balls g). onTable c \<longrightarrow>
                               bvalue c = getBallValue (btype c) \<and> btype c \<noteq> btype pb
                               \<and> getBallValue (btype pb) \<le> bvalue c)
                            \<longrightarrow> getBallValue (btype pb) < getBallValue (btype b))
                else gameState (handleTurnEnd g) = GAME_OVER)"
      by simp
  qed
  from a b c d e show ?thesis by blast
qed

lemma isOccupied_sq:
  "isOccupied bs c q \<longleftrightarrow>
     list_ex (\<lambda>b. \<not> potted b \<and> bid b \<noteq> c
         \<and> (vx (pos b) - vx q)\<^sup>2 + (vy (pos b) - vy q)\<^sup>2 < 342.25) bs"
proof -
  have "vecDist a q < BALL_RADIUS * 2 \<longleftrightarrow> (vx a - vx q)\<^sup>2 + (vy a - vy q)\<^sup>2 < 342.25" for a
    by (subst vecDist_less_iff) (simp_all add: BALL_RADIUS_def power2_eq_square)
  then show ?thesis by (simp add: isOccupied_def)
qed

theorem free_ball_pot_counterexample:
  "foulCheck (turnStatus freeBallClearance) (targetState freeBallClearance)
      (isFreeBall freeBallClearance) (touchingBall freeBallClearance) = (False, 4, ''FOUL'')
   \<and> tsPotted (turnStatus freeBallClearance)
   \<and> pottedBall (turnStatus freeBallClearance) = Some (coloursOnTable ! 3)
   \<and> \<not> redsExist (balls (handleTurnEnd freeBallClearance))
   \<and> map btype (sortedOnTable (balls (handleTurnEnd freeBallClearance)))
       = [YELLOW, GREEN, BROWN, BLUE, PINK, BLACK]
   \<and> targetState (handleTurnEnd freeBallClearance) = TColor
   \<and> gameState (handleTurnEnd freeBallClearance) = PLAYING"
proof -
  have f: "foulCheck (turnStatus freeBallClearance) (targetState freeBallClearance)
      (isFreeBall freeBallClearance) (touchingBall freeBallClearance) = (False, 4, ''FOUL'')"
    by (simp add: freeBallClearance_def foulCheck_def contactFoul_def validHit_def validPot_def
        coloursOnTable_def createBall_def)
  have r: "respawnBall (coloursOnTable ! 3) coloursOnTable
             = coloursOnTable[3 := createBall 3 BROWN 170 200 ''#92400e'' 4]"
    by (simp add: respawnBall_def respawnPos_def isOccupied_sq spots_def coloursOnTable_def
        createBall_def CENTER_Y_def BAULK_X_def D_RADIUS_def power2_eq_square)
  have h: "handleTurnEnd freeBallClearance =
             potBranch (freeBallClearance\<lparr>spin := \<lparr>spin_x = 0, spin_y = 0\<rparr>\<rparr>) (coloursOnTable ! 3)"
    by (rule handleTurnEnd_pot [OF f]) (simp_all add: freeBallClearance_def)
  have b: "balls (handleTurnEnd freeBallClearance) = coloursOnTable[3 := createBall 3 BROWN 170 200 ''#92400e'' 4]"
    unfolding h by (simp add: potBranch_def Let_def freeBallClearance_def r)
  have t: "targetState (handleTurnEnd freeBallClearance) = TColor
      \<and> gameState (handleTurnEnd freeBallClearance) = PLAYING"
    unfolding h by (simp add: potBranch_def Let_def freeBallClearance_def)
  have s: "map btype (sortedOnTable (coloursOnTable[3 := createBall 3 BROWN 170 200 ''#92400e'' 4]))
       = [YELLOW, GREEN, BROWN, BLUE, PINK, BLACK]"
    by (simp add: sortedOnTable_def coloursOnTable_def createBall_def)
  have n: "\<not> redsExist (coloursOnTable[3 := createBall 3 BROWN 170 200 ''#92400e'' 4])"
    by (simp add: redsExist_def coloursOnTable_def createBall_def)
  from f b t s n show ?thesis by (simp add: freeBallClearance_def)
qed

theorem target_after_pot_witness:
  "targetState (handleTurnEnd yellowPotted) = TBall GREEN
   \<and> gameState (handleTurnEnd yellowPotted) = PLAYING
   \<and> targetState (handleTurnEnd freeBallClearance) = TColor"
proof -
  have f: "foulCheck (turnStatus yellowPotted) (targetState yellowPotted)
      (isFreeBall yellowPotted) (touchingBall yellowPotted) = (False, 4, ''FOUL'')"
    by (simp add: yellowPotted_def freeBallClearance_def foulCheck_def contactFoul_def
        validHit_def validPot_def createBall_def)
  have p: "tsPotted (turnStatus yellowPotted)"
    "pottedBall (turnStatus yellowPotted) = Some ((createBall 1 YELLOW 42 42 ''#eab308'' 2)\<lparr>potted := True\<rparr>)"
    by (simp_all add: yellowPotted_def freeBallClearance_def)
  have c: "\<not> isFreeBall yellowPotted" "\<not> redsExist (balls yellowPotted)"
    "targetState yellowPotted \<noteq> TColor" "gameState yellowPotted = PLAYING"
    by (simp_all add: yellowPotted_def freeBallClearance_def redsExist_def createBall_def)
  have ex: "\<exists>b\<in>set (balls yellowPotted). onTable b"
    by (simp add: yellowPotted_def freeBallClearance_def onTable_def createBall_def)
  from target_after_pot [OF f p, of YELLOW] c ex
  obtain b where b: "b \<in> set (balls yellowPotted)" "onTable b"
    "\<forall>c\<in>set (balls yellowPotted). onTable c \<longrightarrow> bvalue b \<le> bvalue c"
    "targetState (handleTurnEnd yellowPotted) = TBall (btype b)"
    "gameState (handleTurnEnd yellowPotted) = gameState yellowPotted"
    by (auto simp: createBall_def)
  from b(1,2,3) have "btype b = GREEN"
    by (auto simp: yellowPotted_def freeBallClearance_def onTable_def createBall_def)
  with b(4,5) c(4) have y: "targetState (handleTurnEnd yellowPotted) = TBall GREEN
     \<and> gameState (handleTurnEnd yellowPotted) = PLAYING" by simp
  have f2: "foulCheck (turnStatus freeBallClearance) (targetState freeBallClearance)
      (isFreeBall freeBallClearance) (touchingBall freeBallClearance) = (False, 4, ''FOUL'')"
    by (simp add: freeBallClearance_def foulCheck_def contactFoul_def validHit_def validPot_def
        coloursOnTable_def createBall_def)
  from target_after_pot [OF f2, of "coloursOnTable ! 3" YELLOW]
  have "targetState (handleTurnEnd freeBallClearance) = TColor"
    by (simp add: freeBallClearance_def)
  with y show ?thesis by simp
qed

section \<open>Friction and spin\<close>


lemma vecLen_vecNorm: "vecLen v \<noteq> 0 \<Longrightarrow> vecLen (vecNorm v) = 1"
proof -
  assume nz: "vecLen v \<noteq> 0"
  let ?l = "vecLen v"
  have l2: "?l * ?l = vx v * vx v + vy v * vy v"
    using vecLen_sq [of v] by (simp add: power2_eq_square vecDot_def)
  have "vx v / ?l * (vx v / ?l) + vy v / ?l * (vy v / ?l) = (vx v * vx v + vy v * vy v) / (?l * ?l)"
    by (simp add: add_divide_distrib)
  also have "\<dots> = (?l * ?l) / (?l * ?l)" by (simp only: l2)
  also have "\<dots> = 1" using nz by simp
  finally show ?thesis using nz by (simp add: vecNorm_def Let_def vecLen_def)
qed













section \<open>Physics engine: what each step does to one ball\<close>

lemma map2_nth:
  "i < length xs \<Longrightarrow> i < length ys \<Longrightarrow> map2 f xs ys ! i = f (xs ! i) (ys ! i)"
  by simp

lemma integrate_keeps:
  "potted (integrate subDt b) = potted b" "vel (integrate subDt b) = vel b"
  "mass (integrate subDt b) = mass b"
  by (simp_all add: integrate_def)

lemma integrate_rest: "vel b = zeroVec \<Longrightarrow> integrate subDt b = b"
  by (simp add: integrate_def vecLen_def)

lemma pocketDetect_Cons:
  "pocketDetect table k (a # act) (b # bs) =
     (if a \<and> \<not> potted b \<and> inPocket table b
      then (b\<lparr>potted := True, vel := zeroVec\<rparr> # fst (pocketDetect table (Suc k) act bs),
            PotEvent k # snd (pocketDetect table (Suc k) act bs))
      else (b # fst (pocketDetect table (Suc k) act bs), snd (pocketDetect table (Suc k) act bs)))"
  by (simp split: prod.splits)

lemma pocketDetect_length:
  "length act = length bs \<Longrightarrow> length (fst (pocketDetect table k act bs)) = length bs"
  by (induction act bs arbitrary: k rule: list_induct2)
     (simp_all add: pocketDetect_Cons del: pocketDetect.simps(1))

lemma pocketDetect_nth:
  "length act = length bs \<Longrightarrow> i < length bs \<Longrightarrow>
     fst (pocketDetect table k act bs) ! i =
       (if captured table (act ! i) (bs ! i) then (bs ! i)\<lparr>potted := True, vel := zeroVec\<rparr> else bs ! i)"
proof (induction act bs arbitrary: k i rule: list_induct2)
  case Nil
  then show ?case by simp
next
  case (Cons a act b bs)
  show ?case
  proof (cases i)
    case 0
    then show ?thesis by (simp add: captured_def pocketDetect_Cons del: pocketDetect.simps(1))
  next
    case (Suc j)
    with Cons.prems have "j < length bs" by simp
    from Cons.IH [OF this, of "Suc k"] Suc show ?thesis
      by (simp add: captured_def pocketDetect_Cons del: pocketDetect.simps(1))
  qed
qed

lemma pocketDetect_count:
  "length act = length bs \<Longrightarrow>
     potCount (snd (pocketDetect table k act bs)) j =
       (if k \<le> j \<and> j - k < length bs \<and> captured table (act ! (j - k)) (bs ! (j - k)) then 1 else 0)"
proof (induction act bs arbitrary: k rule: list_induct2)
  case Nil
  then show ?case by (simp add: potCount_def)
next
  case (Cons a act b bs)
  have ih: "potCount (snd (pocketDetect table (Suc k) act bs)) j =
       (if Suc k \<le> j \<and> j - Suc k < length bs \<and> captured table (act ! (j - Suc k)) (bs ! (j - Suc k)) then 1 else 0)"
    by (rule Cons.IH)
  show ?case
  proof (cases "j = k")
    case True
    with ih show ?thesis
      by (simp add: potCount_def captured_def pocketDetect_Cons del: pocketDetect.simps(1))
  next
    case False
    show ?thesis
    proof (cases "k < j")
      case True
      then obtain d where d: "j - k = Suc d" "j - Suc k = d" by (cases "j - k") auto
      with ih True show ?thesis
        by (simp add: potCount_def captured_def pocketDetect_Cons del: pocketDetect.simps(1))
    next
      case f: False
      with False have "j < k" by simp
      with ih show ?thesis
        by (simp add: potCount_def captured_def pocketDetect_Cons del: pocketDetect.simps(1))
    qed
  qed
qed

lemma pocketDetect_no_collision_events:
  "count_list (snd (pocketDetect table k act bs)) (CollisionEvent i j v) = 0"
  by (induction table k act bs rule: pocketDetect.induct)
     (simp_all add: pocketDetect_Cons del: pocketDetect.simps(1))

lemma wallCollide_keeps:
  "potted (wallCollide table sp b) = potted b" "mass (wallCollide table sp b) = mass b"
  by (simp_all add: wallCollide_def Let_def split: prod.splits)

lemma wallStep_keeps:
  "potted (wallStep table sp a b) = potted b" "mass (wallStep table sp a b) = mass b"
  by (simp_all add: wallStep_def wallCollide_keeps)

lemma wallStep_potted: "potted b \<Longrightarrow> wallStep table sp a b = b"
  by (simp add: wallStep_def)

lemma spinImpulse_keeps:
  "potted (spinImpulse sp d f b) = potted b" "mass (spinImpulse sp d f b) = mass b"
  by (simp_all add: spinImpulse_def Let_def)

lemma collideBalls_keeps:
  assumes "collideBalls sp b1 b2 = (c1, c2, ev)"
  shows "potted c1 = potted b1 \<and> potted c2 = potted b2 \<and> mass c1 = mass b1 \<and> mass c2 = mass b2"
  using assms
  by (auto simp: collideBalls_def Let_def spinImpulse_keeps split: if_splits)

lemma collidePair_props:
  assumes "collidePair sp (i, j) (bs, evs) = (bs', evs')"
  shows "length bs' = length bs"
    and "\<And>k. k < length bs \<Longrightarrow> potted (bs' ! k) = potted (bs ! k) \<and> mass (bs' ! k) = mass (bs ! k)"
    and "\<And>k. k \<noteq> i \<Longrightarrow> k \<noteq> j \<Longrightarrow> bs' ! k = bs ! k"
    and "\<And>n. potCount evs' n = potCount evs n"
proof -
  obtain c1 c2 ev where c: "collideBalls sp (bs ! i) (bs ! j) = (c1, c2, ev)"
    by (cases "collideBalls sp (bs ! i) (bs ! j)") auto
  with assms have r: "bs' = bs[i := c1, j := c2]"
    "evs' = evs @ (case ev of None \<Rightarrow> [] | Some impact \<Rightarrow> [CollisionEvent i j impact])"
    by (simp_all add: collidePair_def)
  from collideBalls_keeps [OF c]
  have k: "potted c1 = potted (bs ! i)" "potted c2 = potted (bs ! j)"
    "mass c1 = mass (bs ! i)" "mass c2 = mass (bs ! j)" by simp_all
  show "length bs' = length bs" using r by simp
  show "potted (bs' ! k) = potted (bs ! k) \<and> mass (bs' ! k) = mass (bs ! k)" if "k < length bs" for k
    using that r k by (cases "k = j"; cases "k = i") simp_all
  show "bs' ! k = bs ! k" if "k \<noteq> i" "k \<noteq> j" for k
    using that r by simp
  show "potCount evs' n = potCount evs n" for n
    using r by (cases ev) (simp_all add: potCount_def)
qed

lemma fold_collide_props:
  assumes "fold (collidePair sp) ps (bs, evs) = (bs', evs')"
  shows "length bs' = length bs
       \<and> (\<forall>k<length bs. potted (bs' ! k) = potted (bs ! k) \<and> mass (bs' ! k) = mass (bs ! k))
       \<and> (\<forall>k. k \<notin> fst ` set ps \<union> snd ` set ps \<longrightarrow> bs' ! k = bs ! k)
       \<and> (\<forall>n. potCount evs' n = potCount evs n)"
  using assms
proof (induction ps arbitrary: bs evs)
  case Nil
  then show ?case by simp
next
  case (Cons p ps)
  obtain i j where p: "p = (i, j)" by (cases p)
  obtain bs1 evs1 where s: "collidePair sp (i, j) (bs, evs) = (bs1, evs1)"
    by (cases "collidePair sp (i, j) (bs, evs)")
  from Cons.prems p s have f: "fold (collidePair sp) ps (bs1, evs1) = (bs', evs')" by simp
  note ih = Cons.IH [OF f]
  note st = collidePair_props [OF s]
  have a: "length bs' = length bs" using ih st(1) by simp
  have b: "\<forall>k<length bs. potted (bs' ! k) = potted (bs ! k) \<and> mass (bs' ! k) = mass (bs ! k)"
    using ih st(1) st(2) by simp
  have c: "\<forall>k. k \<notin> fst ` set (p # ps) \<union> snd ` set (p # ps) \<longrightarrow> bs' ! k = bs ! k"
  proof (intro allI impI)
    fix k assume k: "k \<notin> fst ` set (p # ps) \<union> snd ` set (p # ps)"
    with p have "k \<noteq> i" "k \<noteq> j" "k \<notin> fst ` set ps \<union> snd ` set ps" by auto
    with ih st(3) show "bs' ! k = bs ! k" by simp
  qed
  have d: "\<forall>n. potCount evs' n = potCount evs n" using ih st(4) by simp
  from a b c d show ?case by blast
qed

lemma pairsOf_set: "(i, j) \<in> set (pairsOf xs) \<Longrightarrow> i \<in> set xs \<and> j \<in> set xs"
  by (induction xs) auto


lemma currentActive_set:
  "k \<in> set (currentActive act bs) \<longleftrightarrow> k < length bs \<and> act ! k \<and> \<not> potted (bs ! k)"
  by (auto simp: currentActive_def)

lemma ballCollisions_props:
  assumes "ballCollisions sp act (bs, evs) = (bs', evs')"
  shows "length bs' = length bs"
    and "\<And>k. k < length bs \<Longrightarrow> potted (bs' ! k) = potted (bs ! k) \<and> mass (bs' ! k) = mass (bs ! k)"
    and "\<And>k. k < length bs \<Longrightarrow> potted (bs ! k) \<Longrightarrow> bs' ! k = bs ! k"
    and "\<And>n. potCount evs' n = potCount evs n"
proof -
  let ?ps = "pairsOf (currentActive act bs)"
  from assms have f: "fold (collidePair sp) ?ps (bs, evs) = (bs', evs')"
    by (simp add: ballCollisions_def)
  note pr = fold_collide_props [OF f]
  show "length bs' = length bs" using pr by simp
  show "potted (bs' ! k) = potted (bs ! k) \<and> mass (bs' ! k) = mass (bs ! k)" if "k < length bs" for k
    using pr that by simp
  show "potCount evs' n = potCount evs n" for n using pr by simp
  show "bs' ! k = bs ! k" if "k < length bs" "potted (bs ! k)" for k
  proof -
    have "k \<notin> set (currentActive act bs)" using that by (simp add: currentActive_set)
    then have "k \<notin> fst ` set ?ps \<union> snd ` set ?ps"
      using pairsOf_set [of _ _ "currentActive act bs"] by force
    with pr show ?thesis by simp
  qed
qed

lemma inPocket_pos: "pos c = pos b \<Longrightarrow> inPocket table c = inPocket table b"
  by (simp add: inPocket_def)

lemma potCount_append: "potCount (xs @ ys) n = potCount xs n + potCount ys n"
  by (simp add: potCount_def)

text \<open>What one sub-step does to the ball at position \<open>k\<close>.\<close>

lemma subStep_props:
  assumes inv: "physInv act bs"
    and step: "subStep table sp subDt act (bs, evs) = (bs', evs')"
  shows "physInv act bs'"
    and "length bs' = length bs"
    and "\<And>k. k < length bs \<Longrightarrow> mass (bs' ! k) = mass (bs ! k)"
    and "\<And>k. k < length bs \<Longrightarrow> potted (bs ! k) \<Longrightarrow> bs' ! k = bs ! k"
    and "\<And>k. k < length bs \<Longrightarrow> \<not> potted (bs ! k) \<Longrightarrow>
           potted (bs' ! k) = inPocket table (integrate subDt (bs ! k))"
    and "\<And>k. k < length bs \<Longrightarrow> \<not> potted (bs ! k) \<Longrightarrow> potted (bs' ! k) \<Longrightarrow>
           bs' ! k = (integrate subDt (bs ! k))\<lparr>potted := True, vel := zeroVec\<rparr>"
    and "\<And>k. potCount evs' k =
           potCount evs k + (if k < length bs \<and> \<not> potted (bs ! k) \<and> potted (bs' ! k) then 1 else 0)"
proof -
  let ?n = "length bs"
  define bs1 where "bs1 = map2 (\<lambda>a ball. if a then integrate subDt ball else ball) act bs"
  define bs2 where "bs2 = fst (pocketDetect table 0 act bs1)"
  define pots where "pots = snd (pocketDetect table 0 act bs1)"
  define bs3 where "bs3 = map2 (wallStep table sp) act bs2"
  from inv have len: "length act = ?n" by (simp add: physInv_def)
  from inv have off: "\<not> act ! k \<Longrightarrow> potted (bs ! k)" if "k < ?n" for k
    using that by (simp add: physInv_def)
  from inv have rest: "act ! k \<Longrightarrow> potted (bs ! k) \<Longrightarrow> vel (bs ! k) = zeroVec" if "k < ?n" for k
    using that by (simp add: physInv_def)
  have l1: "length bs1 = ?n" using len by (simp add: bs1_def)
  have l2: "length bs2 = ?n" using len l1 by (simp add: bs2_def pocketDetect_length)
  have l3: "length bs3 = ?n" using len l2 by (simp add: bs3_def)
  from step have bc: "ballCollisions sp act (bs3, evs @ pots) = (bs', evs')"
    by (simp add: subStep_def Let_def bs1_def bs2_def bs3_def pots_def split: prod.splits)
  note col = ballCollisions_props [OF bc]
  have n1: "bs1 ! k = (if act ! k then integrate subDt (bs ! k) else bs ! k)" if "k < ?n" for k
    using that len by (simp add: bs1_def)
  have n2: "bs2 ! k = (if captured table (act ! k) (bs1 ! k)
                        then (bs1 ! k)\<lparr>potted := True, vel := zeroVec\<rparr> else bs1 ! k)"
    if "k < ?n" for k
    unfolding bs2_def using that len l1 by (intro pocketDetect_nth) simp_all
  have n3: "bs3 ! k = wallStep table sp (act ! k) (bs2 ! k)" if "k < ?n" for k
    using that len l2 by (simp add: bs3_def)
  have pot3: "potted (bs' ! k) = potted (bs3 ! k)" if "k < ?n" for k
    using col(2) [of k] that l3 by simp
  have same3: "bs' ! k = bs3 ! k" if "k < ?n" "potted (bs3 ! k)" for k
    using col(3) [of k] that l3 by simp
  show lenr: "length bs' = ?n" using col(1) l3 by simp
  show "mass (bs' ! k) = mass (bs ! k)" if "k < ?n" for k
    using col(2) [of k] that l3 n3 [OF that] n2 [OF that] n1 [OF that]
    by (simp add: wallStep_keeps integrate_keeps)
  have keep: "bs3 ! k = bs ! k" if "k < ?n" "potted (bs ! k)" for k
  proof -
    have "bs1 ! k = bs ! k"
      using n1 [OF that(1)] rest [OF that(1)] that(2) by (simp add: integrate_rest)
    then have "bs2 ! k = bs ! k"
      using n2 [OF that(1)] that(2) by (simp add: captured_def)
    then show ?thesis using n3 [OF that(1)] that(2) by (simp add: wallStep_potted)
  qed
  show unchanged: "bs' ! k = bs ! k" if "k < ?n" "potted (bs ! k)" for k
    using keep [OF that] same3 [of k] that by simp
  have live1: "bs1 ! k = integrate subDt (bs ! k)" if "k < ?n" "\<not> potted (bs ! k)" for k
    using n1 [OF that(1)] off [OF that(1)] that(2) by auto
  have cap: "captured table (act ! k) (bs1 ! k) = inPocket table (integrate subDt (bs ! k))"
    if "k < ?n" "\<not> potted (bs ! k)" for k
    using live1 [OF that] off [OF that(1)] that(2) by (auto simp: captured_def integrate_keeps)
  show crit: "potted (bs' ! k) = inPocket table (integrate subDt (bs ! k))"
    if "k < ?n" "\<not> potted (bs ! k)" for k
    using pot3 [OF that(1)] n3 [OF that(1)] n2 [OF that(1)] cap [OF that] live1 [OF that] that(2)
    by (simp add: wallStep_keeps integrate_keeps)
  show now: "bs' ! k = (integrate subDt (bs ! k))\<lparr>potted := True, vel := zeroVec\<rparr>"
    if "k < ?n" "\<not> potted (bs ! k)" "potted (bs' ! k)" for k
  proof -
    from crit [OF that(1,2)] that(3) have "captured table (act ! k) (bs1 ! k)"
      using cap [OF that(1,2)] by simp
    then have b2: "bs2 ! k = (integrate subDt (bs ! k))\<lparr>potted := True, vel := zeroVec\<rparr>"
      using n2 [OF that(1)] live1 [OF that(1,2)] by simp
    then have "bs3 ! k = (integrate subDt (bs ! k))\<lparr>potted := True, vel := zeroVec\<rparr>"
      using n3 [OF that(1)] by (simp add: wallStep_potted)
    then show ?thesis using same3 [of k] that(1) by simp
  qed
  show "physInv act bs'"
    unfolding physInv_def
  proof (intro conjI allI impI)
    show "length act = length bs'" using len lenr by simp
  next
    fix k assume "k < length bs'" "\<not> act ! k"
    then show "potted (bs' ! k)" using lenr off [of k] unchanged [of k] by simp
  next
    fix k assume k: "k < length bs'" and a: "act ! k \<and> potted (bs' ! k)"
    show "vel (bs' ! k) = zeroVec"
    proof (cases "potted (bs ! k)")
      case True
      then show ?thesis using k a lenr rest [of k] unchanged [of k] by simp
    next
      case False
      then show ?thesis using k a lenr now [of k] by simp
    qed
  qed
  show "potCount evs' k =
           potCount evs k + (if k < ?n \<and> \<not> potted (bs ! k) \<and> potted (bs' ! k) then 1 else 0)" for k
  proof -
    have c: "potCount pots k = (if k < ?n \<and> captured table (act ! k) (bs1 ! k) then 1 else 0)"
      using pocketDetect_count [of act bs1 table 0 k] len l1 by (simp add: pots_def)
    have e: "(k < ?n \<and> captured table (act ! k) (bs1 ! k))
               = (k < ?n \<and> \<not> potted (bs ! k) \<and> potted (bs' ! k))"
    proof (cases "k < ?n")
      case True
      show ?thesis
      proof (cases "potted (bs ! k)")
        case p: True
        then have "bs1 ! k = bs ! k"
          using n1 [OF True] rest [OF True] by (simp add: integrate_rest)
        with p show ?thesis by (simp add: captured_def)
      next
        case False
        with True show ?thesis using cap [of k] crit [of k] by simp
      qed
    next
      case False
      then show ?thesis by simp
    qed
    show ?thesis using col(4) [of k] c e by (simp add: potCount_append)
  qed
qed

text \<open>The same for any number of sub-steps.\<close>

lemma subSteps_props:
  assumes inv: "physInv act bs"
  shows "physInv act (fst ((subStep table sp subDt act ^^ n) (bs, evs)))
       \<and> length (fst ((subStep table sp subDt act ^^ n) (bs, evs))) = length bs
       \<and> (\<forall>k<length bs. mass (fst ((subStep table sp subDt act ^^ n) (bs, evs)) ! k) = mass (bs ! k))
       \<and> (\<forall>k<length bs. potted (bs ! k) \<longrightarrow>
             fst ((subStep table sp subDt act ^^ n) (bs, evs)) ! k = bs ! k)
       \<and> (\<forall>k<length bs. \<not> potted (bs ! k) \<and> potted (fst ((subStep table sp subDt act ^^ n) (bs, evs)) ! k) \<longrightarrow>
             vel (fst ((subStep table sp subDt act ^^ n) (bs, evs)) ! k) = zeroVec
             \<and> inPocket table (fst ((subStep table sp subDt act ^^ n) (bs, evs)) ! k))
       \<and> (\<forall>k. potCount (snd ((subStep table sp subDt act ^^ n) (bs, evs))) k =
             potCount evs k
             + (if k < length bs \<and> \<not> potted (bs ! k)
                    \<and> potted (fst ((subStep table sp subDt act ^^ n) (bs, evs)) ! k) then 1 else 0))"
proof (induction n)
  case 0
  from inv show ?case by simp
next
  case (Suc n)
  obtain bn en where sn: "(subStep table sp subDt act ^^ n) (bs, evs) = (bn, en)"
    by (cases "(subStep table sp subDt act ^^ n) (bs, evs)")
  obtain b' e' where st: "subStep table sp subDt act (bn, en) = (b', e')"
    by (cases "subStep table sp subDt act (bn, en)")
  have s': "(subStep table sp subDt act ^^ Suc n) (bs, evs) = (b', e')"
    using sn st by simp
  from Suc.IH sn have ih: "physInv act bn" "length bn = length bs"
    "\<forall>k<length bs. mass (bn ! k) = mass (bs ! k)"
    "\<forall>k<length bs. potted (bs ! k) \<longrightarrow> bn ! k = bs ! k"
    "\<forall>k<length bs. \<not> potted (bs ! k) \<and> potted (bn ! k) \<longrightarrow> vel (bn ! k) = zeroVec \<and> inPocket table (bn ! k)"
    "\<forall>k. potCount en k = potCount evs k + (if k < length bs \<and> \<not> potted (bs ! k) \<and> potted (bn ! k) then 1 else 0)"
    by simp_all
  note p = subStep_props [OF ih(1) st]
  have a: "physInv act b'" by (rule p(1))
  have b: "length b' = length bs" using p(2) ih(2) by simp
  have c: "\<forall>k<length bs. mass (b' ! k) = mass (bs ! k)" using p(3) ih(2,3) by simp
  have d: "\<forall>k<length bs. potted (bs ! k) \<longrightarrow> b' ! k = bs ! k"
    using p(4) ih(2,4) by simp
  have mono: "potted (b' ! k)" if "k < length bs" "potted (bn ! k)" for k
    using p(4) [of k] that ih(2) by simp
  have e: "\<forall>k<length bs. \<not> potted (bs ! k) \<and> potted (b' ! k) \<longrightarrow>
             vel (b' ! k) = zeroVec \<and> inPocket table (b' ! k)"
  proof (intro allI impI)
    fix k assume k: "k < length bs" and h: "\<not> potted (bs ! k) \<and> potted (b' ! k)"
    show "vel (b' ! k) = zeroVec \<and> inPocket table (b' ! k)"
    proof (cases "potted (bn ! k)")
      case True
      then have "b' ! k = bn ! k" using p(4) [of k] k ih(2) by simp
      with True h k ih(5) show ?thesis by simp
    next
      case False
      with k h ih(2) have i: "inPocket table (integrate subDt (bn ! k))"
        using p(5) [of k] by simp
      from False k h ih(2) have "b' ! k = (integrate subDt (bn ! k))\<lparr>potted := True, vel := zeroVec\<rparr>"
        using p(6) [of k] by simp
      with i show ?thesis by (simp add: inPocket_def)
    qed
  qed
  have f: "\<forall>k. potCount e' k = potCount evs k
             + (if k < length bs \<and> \<not> potted (bs ! k) \<and> potted (b' ! k) then 1 else 0)"
  proof
    fix k
    show "potCount e' k = potCount evs k
             + (if k < length bs \<and> \<not> potted (bs ! k) \<and> potted (b' ! k) then 1 else 0)"
    proof (cases "k < length bs")
      case False
      then show ?thesis using p(7) [of k] ih(2,6) by simp
    next
      case True
      show ?thesis
      proof (cases "potted (bs ! k)")
        case t: True
        then show ?thesis using p(7) [of k] ih(2,4,6) True by simp
      next
        case False
        show ?thesis
        proof (cases "potted (bn ! k)")
          case t: True
          with mono [OF True] show ?thesis using p(7) [of k] ih(2,6) True False by simp
        next
          case f: False
          then show ?thesis using p(7) [of k] ih(2,6) True False by simp
        qed
      qed
    qed
  qed
  from a b c d e f show ?case unfolding s' by simp
qed

lemma physInv_entry: "physInv (map (\<lambda>b. \<not> potted b) bs) bs"
  by (simp add: physInv_def)

lemma applyFriction_keeps:
  "potted (applyFriction timeScale sp b) = potted b" "mass (applyFriction timeScale sp b) = mass b"
  "pos (applyFriction timeScale sp b) = pos b"
  by (simp_all add: applyFriction_def Let_def)

lemma applyFriction_potted: "potted b \<Longrightarrow> applyFriction timeScale sp b = b"
  by (simp add: applyFriction_def)

section \<open>Pocket capture\<close>

lemma updatePhysics_unfold:
  "updatePhysics bs table sp dt =
     (map (applyFriction (dt * 60) sp)
        (fst ((subStep table sp (dt * 60 / real SUB_STEPS) (map (\<lambda>b. \<not> potted b) bs) ^^ SUB_STEPS) (bs, []))),
      snd ((subStep table sp (dt * 60 / real SUB_STEPS) (map (\<lambda>b. \<not> potted b) bs) ^^ SUB_STEPS) (bs, [])))"
  by (simp add: updatePhysics_def Let_def split: prod.splits)

text \<open>
  Claim C4.  For the ball at position \<open>i\<close> of \<open>balls\<close> in a call of \<open>updatePhysics\<close>:
  a ball potted at entry is returned unchanged and \<open>onPot\<close> is not called for it;
  \<open>onPot\<close> is called exactly once if the ball is captured during the call and not at all
  otherwise; a captured ball is potted, has velocity zero and lies within 0.95 times the
  pocket radius of a pocket centre; once a ball is potted after some sub-step, the rest of
  the call leaves it unchanged; and in each sub-step a ball not yet potted is captured
  exactly when, after the integration, its centre is within 0.95 times the pocket radius
  of a pocket centre, and then it is marked potted with velocity zero and \<open>onPot\<close> is
  called once.
\<close>

theorem pocket_capture_once:
  fixes bs :: "Ball list" and table :: TableConfig and sp :: Spin and dt :: real
  defines "act \<equiv> map (\<lambda>b. \<not> potted b) bs"
    and "subDt \<equiv> dt * 60 / real SUB_STEPS"
  defines "state \<equiv> \<lambda>n. (subStep table sp subDt act ^^ n) (bs, [])"
  defines "res \<equiv> updatePhysics bs table sp dt"
  assumes i: "i < length bs"
  shows "(potted (bs ! i) \<longrightarrow> fst res ! i = bs ! i \<and> potCount (snd res) i = 0)
       \<and> potCount (snd res) i = (if \<not> potted (bs ! i) \<and> potted (fst res ! i) then 1 else 0)
       \<and> (\<not> potted (bs ! i) \<and> potted (fst res ! i) \<longrightarrow>
            vel (fst res ! i) = zeroVec
            \<and> (\<exists>pocket\<in>set (pockets table).
                  vecDist (pos (fst res ! i)) pocket < pocketRadius table * 0.95))
       \<and> (\<forall>n\<le>SUB_STEPS. potted (fst (state n) ! i) \<longrightarrow> fst res ! i = fst (state n) ! i)
       \<and> (\<forall>n<SUB_STEPS. \<not> potted (fst (state n) ! i) \<longrightarrow>
            (potted (fst (state (Suc n)) ! i) \<longleftrightarrow>
               (\<exists>pocket\<in>set (pockets table).
                  vecDist (pos (integrate subDt (fst (state n) ! i))) pocket < pocketRadius table * 0.95))
            \<and> (potted (fst (state (Suc n)) ! i) \<longrightarrow>
                 fst (state (Suc n)) ! i = (integrate subDt (fst (state n) ! i))\<lparr>potted := True, vel := zeroVec\<rparr>
                 \<and> potCount (snd (state (Suc n))) i = 1 + potCount (snd (state n)) i))"
proof -
  let ?f = "subStep table sp subDt act"
  have inv0: "physInv act bs" unfolding act_def by (rule physInv_entry)
  have res: "fst res = map (applyFriction (dt * 60) sp) (fst (state SUB_STEPS))"
    "snd res = snd (state SUB_STEPS)"
    unfolding res_def state_def act_def subDt_def by (simp_all add: updatePhysics_unfold)
  have st: "physInv act (fst (state n))" "length (fst (state n)) = length bs"
    "potted (bs ! i) \<longrightarrow> fst (state n) ! i = bs ! i"
    "\<not> potted (bs ! i) \<and> potted (fst (state n) ! i) \<longrightarrow>
       vel (fst (state n) ! i) = zeroVec \<and> inPocket table (fst (state n) ! i)"
    "potCount (snd (state n)) i =
       (if \<not> potted (bs ! i) \<and> potted (fst (state n) ! i) then 1 else 0)" for n
    using subSteps_props [OF inv0, where table = table and sp = sp and subDt = subDt and n = n and evs = "[]"] i
    unfolding state_def by (simp_all add: potCount_def)
  have resi: "fst res ! i = applyFriction (dt * 60) sp (fst (state SUB_STEPS) ! i)"
    using res(1) st(2) [of SUB_STEPS] i by simp
  have later: "fst (state (n + d)) ! i = fst (state n) ! i" if "potted (fst (state n) ! i)" for n d
  proof -
    have "state (n + d) = (?f ^^ d) (fst (state n), snd (state n))"
      unfolding state_def by (simp add: funpow_add add.commute)
    with subSteps_props [OF st(1) [of n], where table = table and sp = sp and subDt = subDt and n = d and evs = "snd (state n)"] that i st(2) [of n]
    show ?thesis by simp
  qed
  have a: "potted (bs ! i) \<longrightarrow> fst res ! i = bs ! i \<and> potCount (snd res) i = 0"
    using resi st(3) [of SUB_STEPS] st(5) [of SUB_STEPS] res(2)
    by (simp add: applyFriction_potted)
  have b: "potCount (snd res) i = (if \<not> potted (bs ! i) \<and> potted (fst res ! i) then 1 else 0)"
    using resi st(5) [of SUB_STEPS] res(2) by (simp add: applyFriction_keeps)
  have c: "\<not> potted (bs ! i) \<and> potted (fst res ! i) \<longrightarrow>
            vel (fst res ! i) = zeroVec
            \<and> (\<exists>pocket\<in>set (pockets table).
                  vecDist (pos (fst res ! i)) pocket < pocketRadius table * 0.95)"
  proof
    assume h: "\<not> potted (bs ! i) \<and> potted (fst res ! i)"
    then have p: "potted (fst (state SUB_STEPS) ! i)" using resi by (simp add: applyFriction_keeps)
    then have "fst res ! i = fst (state SUB_STEPS) ! i" using resi by (simp add: applyFriction_potted)
    with st(4) [of SUB_STEPS] h p
    show "vel (fst res ! i) = zeroVec
            \<and> (\<exists>pocket\<in>set (pockets table).
                  vecDist (pos (fst res ! i)) pocket < pocketRadius table * 0.95)"
      by (simp add: inPocket_def list_ex_iff)
  qed
  have d: "\<forall>n\<le>SUB_STEPS. potted (fst (state n) ! i) \<longrightarrow> fst res ! i = fst (state n) ! i"
  proof (intro allI impI)
    fix n assume n: "n \<le> SUB_STEPS" and p: "potted (fst (state n) ! i)"
    from later [OF p, of "SUB_STEPS - n"] n have e: "fst (state SUB_STEPS) ! i = fst (state n) ! i"
      by simp
    with p resi show "fst res ! i = fst (state n) ! i" by (simp add: applyFriction_potted)
  qed
  have e: "\<forall>n<SUB_STEPS. \<not> potted (fst (state n) ! i) \<longrightarrow>
            (potted (fst (state (Suc n)) ! i) \<longleftrightarrow>
               (\<exists>pocket\<in>set (pockets table).
                  vecDist (pos (integrate subDt (fst (state n) ! i))) pocket < pocketRadius table * 0.95))
            \<and> (potted (fst (state (Suc n)) ! i) \<longrightarrow>
                 fst (state (Suc n)) ! i = (integrate subDt (fst (state n) ! i))\<lparr>potted := True, vel := zeroVec\<rparr>
                 \<and> potCount (snd (state (Suc n))) i = 1 + potCount (snd (state n)) i)"
  proof (intro allI impI)
    fix n assume np: "\<not> potted (fst (state n) ! i)"
    have s: "?f (fst (state n), snd (state n)) = (fst (state (Suc n)), snd (state (Suc n)))"
      unfolding state_def by simp
    note p = subStep_props [OF st(1) [of n] s]
    have k: "i < length (fst (state n))" using i st(2) [of n] by simp
    from p(5) [OF k np]
    have x: "potted (fst (state (Suc n)) ! i) \<longleftrightarrow>
               (\<exists>pocket\<in>set (pockets table).
                  vecDist (pos (integrate subDt (fst (state n) ! i))) pocket < pocketRadius table * 0.95)"
      by (simp add: inPocket_def list_ex_iff)
    have y: "potted (fst (state (Suc n)) ! i) \<longrightarrow>
                 fst (state (Suc n)) ! i = (integrate subDt (fst (state n) ! i))\<lparr>potted := True, vel := zeroVec\<rparr>
                 \<and> potCount (snd (state (Suc n))) i = 1 + potCount (snd (state n)) i"
      using p(6) [OF k np] p(7) [of i] k np by simp
    from x y show "(potted (fst (state (Suc n)) ! i) \<longleftrightarrow>
               (\<exists>pocket\<in>set (pockets table).
                  vecDist (pos (integrate subDt (fst (state n) ! i))) pocket < pocketRadius table * 0.95))
            \<and> (potted (fst (state (Suc n)) ! i) \<longrightarrow>
                 fst (state (Suc n)) ! i = (integrate subDt (fst (state n) ! i))\<lparr>potted := True, vel := zeroVec\<rparr>
                 \<and> potCount (snd (state (Suc n))) i = 1 + potCount (snd (state n)) i)"
      by blast
  qed
  from a b c d e show ?thesis by blast
qed

theorem pocket_capture_once_witness:
  "fst (updatePhysics pocketExample TABLE_CONFIG noSpin (1 / 60)) ! 0 = pocketExample ! 0
   \<and> potCount (snd (updatePhysics pocketExample TABLE_CONFIG noSpin (1 / 60))) 0 = 0
   \<and> potted (fst (updatePhysics pocketExample TABLE_CONFIG noSpin (1 / 60)) ! 1)
   \<and> potCount (snd (updatePhysics pocketExample TABLE_CONFIG noSpin (1 / 60))) 1 = 1"
proof -
  let ?res = "updatePhysics pocketExample TABLE_CONFIG noSpin (1 / 60)"
  let ?st = "\<lambda>n. (subStep TABLE_CONFIG noSpin (1 / 60 * 60 / real SUB_STEPS)
                     (map (\<lambda>b. \<not> potted b) pocketExample) ^^ n) (pocketExample, [])"
  have l: "0 < length pocketExample" "1 < length pocketExample"
    by (simp_all add: pocketExample_def)
  have p0: "potted (pocketExample ! 0)" and p1: "\<not> potted (pocketExample ! 1)"
    by (simp_all add: pocketExample_def createBall_def)
  note t0 = pocket_capture_once [where i = 0 and bs = pocketExample and table = TABLE_CONFIG
      and sp = noSpin and dt = "1 / 60", OF l(1)]
  note t1 = pocket_capture_once [where i = 1 and bs = pocketExample and table = TABLE_CONFIG
      and sp = noSpin and dt = "1 / 60", OF l(2)]
  from t0 p0 have a: "fst ?res ! 0 = pocketExample ! 0 \<and> potCount (snd ?res) 0 = 0"
    by blast
  have i: "integrate (1 / 60 * 60 / real SUB_STEPS) (pocketExample ! 1) = pocketExample ! 1"
    by (simp add: integrate_def pocketExample_def createBall_def vecLen_def)
  have "\<exists>pocket\<in>set (pockets TABLE_CONFIG).
          vecDist (pos (pocketExample ! 1)) pocket < pocketRadius TABLE_CONFIG * 0.95"
    by (simp add: pockets_def TABLE_CONFIG_def pocketExample_def createBall_def vecDist_def
        vecSub_def)
  with i have c: "\<exists>pocket\<in>set (pockets TABLE_CONFIG).
          vecDist (pos (integrate (1 / 60 * 60 / real SUB_STEPS) (fst (?st 0) ! 1))) pocket
            < pocketRadius TABLE_CONFIG * 0.95"
    by simp
  have "(0::nat) < SUB_STEPS" "Suc 0 \<le> SUB_STEPS" by (simp_all add: SUB_STEPS_def)
  moreover have "\<not> potted (fst (?st 0) ! 1)" using p1 by simp
  ultimately have "potted (fst (?st (Suc 0)) ! 1)" and "fst ?res ! 1 = fst (?st (Suc 0)) ! 1"
    using t1 c by blast+
  then have "potted (fst ?res ! 1)" by simp
  with t1 p1 have "potted (fst ?res ! 1) \<and> potCount (snd ?res) 1 = 1" by simp
  with a show ?thesis by simp
qed

section \<open>Kinetic energy never increases without spin\<close>






















subsection \<open>Rounding to binary64\<close>

text \<open>
  \<open>fl x\<close> is evaluated from the binade of \<open>x\<close> and the integer significand nearest to
  \<open>x\<close> scaled to it.
\<close>

lemma roundHalfEven_eq:
  assumes "of_int m - 1 / 2 < x" "x < of_int m + 1 / 2"
  shows "roundHalfEven x = m"
proof -
  define f where "f = \<lfloor>x\<rfloor>"
  have fb: "of_int f \<le> x" "x < of_int f + 1" unfolding f_def by linarith+
  have r: "roundHalfEven x
             = (if x - of_int f < 1 / 2 then f else if x - of_int f > 1 / 2 then f + 1
                else if even f then f else f + 1)"
    by (simp add: roundHalfEven_def Let_def f_def)
  have "of_int f < of_int m + (1 / 2 :: real)" using fb(1) assms(2) by linarith
  then have "f < m + 1" by linarith
  moreover have "of_int m - 1 / 2 < of_int f + (1 :: real)" using fb(2) assms(1) by linarith
  then have "m - 1 \<le> f" by linarith
  ultimately consider "f = m" | "f = m - 1" by linarith
  then show ?thesis
  proof cases
    case 1
    with assms(2) have "x - of_int f < 1 / 2" by simp
    with 1 r show ?thesis by simp
  next
    case 2
    with assms(1) have "x - of_int f > 1 / 2" by simp
    with 2 r show ?thesis by simp
  qed
qed

lemma ulpExp_eq:
  assumes "2 powi k \<le> x" "x < 2 powi (k + 1)" "- 1022 \<le> k"
  shows "ulpExp x = k - 52"
proof -
  have p: "0 < (2::real) powi k" by simp
  with assms have x: "0 < x" by linarith
  have a: "(2::real) powr of_int k = 2 powi k"
    by (rule powr_real_of_int') simp_all
  have "(2::real) powr of_int (k + 1) = 2 powi (k + 1)"
    by (rule powr_real_of_int') simp_all
  then have b: "(2::real) powr (of_int k + 1) = 2 powi (k + 1)" by simp
  have "2 powr of_int k \<le> x \<and> x < 2 powr (of_int k + 1)"
    using assms(1,2) by (simp only: a b)
  with x have "\<lfloor>log 2 x\<rfloor> = k"
    by (subst floor_log_eq_powr_iff) simp_all
  with x assms(3) show ?thesis by (simp add: ulpExp_def)
qed

lemma fl_eval:
  assumes "2 powi k \<le> x" "x < 2 powi (k + 1)" "- 1022 \<le> k"
    and "(of_int m - 1 / 2) * 2 powi (k - 52) < x" "x < (of_int m + 1 / 2) * 2 powi (k - 52)"
  shows "fl x = of_int m * 2 powi (k - 52)"
proof -
  have p: "0 < (2::real) powi k" and q: "0 < (2::real) powi (k - 52)" by simp_all
  with assms have x: "x \<noteq> 0" by linarith
  have "roundHalfEven (x / 2 powi (k - 52)) = m"
    using assms(4,5) q by (intro roundHalfEven_eq) (simp_all add: field_simps)
  with x show ?thesis by (simp add: fl_def ulpExp_eq [OF assms(1-3)])
qed


text \<open>The literal \<open>0.1\<close> is the binary64 number next above one tenth.\<close>

lemma fl_one_tenth: "fl 0.1 = 0.1000000000000000055511151231257827021181583404541015625"
  using fl_eval [of "- 4" "0.1" 7205759403792794] by simp

subsection \<open>The friction loop in binary64 for the velocity \<open>(5, 7)\<close>\<close>













subsection \<open>The same ball in exact arithmetic\<close>





subsection \<open>The cue ball hits a red ball, which hits the cushion\<close>


lemma onLine_fields [simp]:
  "pos (onLine b x v) = \<lparr>vx = x, vy = 200\<rparr>" "vel (onLine b x v) = \<lparr>vx = v, vy = 0\<rparr>"
  "potted (onLine b x v) = potted b" "radius (onLine b x v) = radius b"
  "btype (onLine b x v) = btype b" "mass (onLine b x v) = mass b"
  by (simp_all add: onLine_def)

lemma onLine_update [simp]:
  "(onLine b x v)\<lparr>pos := \<lparr>vx = x', vy = 200\<rparr>\<rparr> = onLine b x' v"
  "(onLine b x v)\<lparr>vel := \<lparr>vx = v', vy = 0\<rparr>\<rparr> = onLine b x v'"
  "(onLine b x v)\<lparr>pos := \<lparr>vx = x', vy = 200\<rparr>, vel := \<lparr>vx = v', vy = 0\<rparr>\<rparr> = onLine b x' v'"
  by (simp_all add: onLine_def)















subsection \<open>The energy of a call\<close>




section \<open>Trajectory predictor: the end point\<close>

lemma quad_root:
  fixes B c r :: real
  assumes "r * r = B * B - 4 * c"
  shows "((- B - r) / 2) * ((- B - r) / 2) + B * ((- B - r) / 2) + c = 0"
proof -
  have "4 * (((- B - r) / 2) * ((- B - r) / 2) + B * ((- B - r) / 2) + c) = r * r - B * B + 4 * c"
    by (simp add: field_simps)
  also have "\<dots> = 0" using assms by simp
  finally show ?thesis by simp
qed

lemma quad_least:
  fixes B c r s :: real
  assumes r: "r * r = B * B - 4 * c" "0 \<le> r" and s: "s * s + B * s + c = 0"
  shows "(- B - r) / 2 \<le> s"
proof -
  have "(2 * s + B)\<^sup>2 = r\<^sup>2"
  proof -
    have "(2 * s + B)\<^sup>2 = 4 * (s * s + B * s + c) + (B * B - 4 * c)"
      by (simp add: power2_eq_square algebra_simps)
    with r(1) s show ?thesis by (simp add: power2_eq_square)
  qed
  then have "2 * s + B = r \<or> 2 * s + B = - r" by (simp add: power2_eq_iff)
  with r(2) show ?thesis by auto
qed

lemma quad_outside:
  fixes B c r :: real
  assumes r: "r * r = B * B - 4 * c" "0 \<le> r" and t: "0 < (- B - r) / 2"
  shows "0 < c"
proof -
  from t have "r < - B" by simp
  with r(2) have "r * r < (- B) * (- B)" by (intro mult_strict_mono') simp_all
  with r(1) show ?thesis by simp
qed

lemma quad_exists:
  fixes B c s :: real
  assumes s: "0 < s" "s * s + B * s + c = 0" and c: "0 < c"
  shows "0 \<le> B * B - 4 * c \<and> 0 < (- B - sqrt (B * B - 4 * c)) / 2"
proof -
  have d: "B * B - 4 * c = (2 * s + B)\<^sup>2"
  proof -
    have "(2 * s + B)\<^sup>2 = 4 * (s * s + B * s + c) + (B * B - 4 * c)"
      by (simp add: power2_eq_square algebra_simps)
    with s(2) show ?thesis by simp
  qed
  then have sq: "sqrt (B * B - 4 * c) = \<bar>2 * s + B\<bar>" by simp
  have "s * (s + B) = - c" using s(2) by (simp add: algebra_simps)
  with c have "s * (s + B) < 0" by simp
  with s(1) have "s + B < 0" by (simp add: mult_less_0_iff)
  then have "0 < (- B - \<bar>2 * s + B\<bar>) / 2" using s(1) by (auto simp: abs_if)
  with d sq show ?thesis by simp
qed

lemma ray_dist_sq:
  assumes "vecDot d d = 1"
  shows "(vecDist (vecAdd s (vecMult d u)) p)\<^sup>2
           = u * u + (2 * vecDot (vecSub s p) d) * u + vecDot (vecSub s p) (vecSub s p)"
proof -
  have "(vecDist (vecAdd s (vecMult d u)) p)\<^sup>2
          = vecDot (vecSub s p) (vecSub s p) + 2 * u * vecDot (vecSub s p) d + u * u * vecDot d d"
    unfolding vecDist_def vecLen_sq
    by (simp add: vecDot_def vecSub_def vecAdd_def vecMult_def algebra_simps)
  with assms show ?thesis by (simp add: algebra_simps)
qed

lemma eq_iff_sq_eq: "0 \<le> a \<Longrightarrow> 0 \<le> b \<Longrightarrow> a = b \<longleftrightarrow> a\<^sup>2 = (b::real)\<^sup>2"
  by (auto simp: power2_eq_iff)

lemma less_iff_sq_less: "0 \<le> a \<Longrightarrow> 0 \<le> b \<Longrightarrow> a < b \<longleftrightarrow> a\<^sup>2 < (b::real)\<^sup>2"
  by (metis less_eq_real_def not_less power2_le_imp_le power_less_imp_less_base)

lemma vecDist_nonneg: "0 \<le> vecDist a b"
  by (simp add: vecDist_def vecLen_nonneg)

lemma onCircle_iff:
  assumes "vecDot d d = 1"
  shows "specOnCircle s d b t \<longleftrightarrow>
           0 < t \<and> t * t + (2 * vecDot (vecSub s (pos b)) d) * t
                     + (vecDot (vecSub s (pos b)) (vecSub s (pos b)) - 4 * BALL_RADIUS * BALL_RADIUS) = 0"
proof -
  have r: "(0::real) \<le> 2 * BALL_RADIUS" by (simp add: BALL_RADIUS_def)
  have "vecDist (vecAdd s (vecMult d t)) (pos b) = 2 * BALL_RADIUS
          \<longleftrightarrow> (vecDist (vecAdd s (vecMult d t)) (pos b))\<^sup>2 = (2 * BALL_RADIUS)\<^sup>2"
    by (rule eq_iff_sq_eq [OF vecDist_nonneg r])
  then show ?thesis
    unfolding specOnCircle_def ray_dist_sq [OF assms]
    by (simp add: power2_eq_square algebra_simps)
qed

lemma outside_iff:
  "specOutside s b \<longleftrightarrow> 0 < vecDot (vecSub s (pos b)) (vecSub s (pos b)) - 4 * BALL_RADIUS * BALL_RADIUS"
proof -
  have r: "(0::real) \<le> 2 * BALL_RADIUS" by (simp add: BALL_RADIUS_def)
  have "2 * BALL_RADIUS < vecDist s (pos b) \<longleftrightarrow> (2 * BALL_RADIUS)\<^sup>2 < (vecDist s (pos b))\<^sup>2"
    by (rule less_iff_sq_less [OF r vecDist_nonneg])
  moreover have "(vecDist s (pos b))\<^sup>2 = vecDot (vecSub s (pos b)) (vecSub s (pos b))"
    by (simp add: vecDist_def vecLen_sq)
  ultimately show ?thesis
    unfolding specOutside_def by (simp add: power2_eq_square mult.assoc)
qed

lemma rayHit_Some:
  "rayHit s d b = Some t \<longleftrightarrow>
     (let B = 2 * vecDot (vecSub s (pos b)) d;
          c = vecDot (vecSub s (pos b)) (vecSub s (pos b)) - 4 * BALL_RADIUS * BALL_RADIUS
      in 0 \<le> B * B - 4 * c \<and> t = (- B - sqrt (B * B - 4 * c)) / 2 \<and> 0 < t)"
  by (auto simp: rayHit_def Let_def)

lemma rayHit_sound:
  assumes unit: "vecDot d d = 1" and hit: "rayHit s d b = Some t"
  shows "specOnCircle s d b t \<and> specOutside s b \<and> (\<forall>u. specOnCircle s d b u \<longrightarrow> t \<le> u)"
proof -
  define B where "B = 2 * vecDot (vecSub s (pos b)) d"
  define c where "c = vecDot (vecSub s (pos b)) (vecSub s (pos b)) - 4 * BALL_RADIUS * BALL_RADIUS"
  define r where "r = sqrt (B * B - 4 * c)"
  from hit have h: "0 \<le> B * B - 4 * c" "t = (- B - r) / 2" "0 < t"
    by (simp_all add: rayHit_Some Let_def B_def c_def r_def)
  have r: "r * r = B * B - 4 * c" "0 \<le> r" using h(1) by (simp_all add: r_def)
  have "t * t + B * t + c = 0" unfolding h(2) by (rule quad_root [OF r(1)])
  with h(3) have a: "specOnCircle s d b t"
    by (simp add: onCircle_iff [OF unit] B_def c_def)
  have b: "specOutside s b"
    using quad_outside [OF r] h(2,3) by (simp add: outside_iff c_def)
  have "t \<le> u" if "specOnCircle s d b u" for u
  proof -
    from that have "u * u + B * u + c = 0" by (simp add: onCircle_iff [OF unit] B_def c_def)
    from quad_least [OF r this] show ?thesis by (simp add: h(2))
  qed
  with a b show ?thesis by blast
qed

lemma rayHit_complete:
  assumes unit: "vecDot d d = 1" and out: "specOutside s b" and on: "specOnCircle s d b u"
  shows "\<exists>t. rayHit s d b = Some t"
proof -
  define B where "B = 2 * vecDot (vecSub s (pos b)) d"
  define c where "c = vecDot (vecSub s (pos b)) (vecSub s (pos b)) - 4 * BALL_RADIUS * BALL_RADIUS"
  from on have u: "0 < u" "u * u + B * u + c = 0"
    by (simp_all add: onCircle_iff [OF unit] B_def c_def)
  from out have "0 < c" by (simp add: outside_iff c_def)
  from quad_exists [OF u this]
  have "rayHit s d b = Some ((- B - sqrt (B * B - 4 * c)) / 2)"
    unfolding rayHit_Some Let_def B_def [symmetric] c_def [symmetric] by blast
  then show ?thesis by blast
qed

lemma leInf_simps [simp]:
  "leInf a None" "leInf None (Some t) = False" "leInf (Some u) (Some t) = (u \<le> t)"
  by (cases a) (auto simp: leInf_def)

lemma leInf_trans: "leInf a b \<Longrightarrow> leInf b c \<Longrightarrow> leInf a c"
  by (cases a; cases b; cases c) auto

lemma hitLoop_le_acc: "leInf (fst (hitLoop s d bs acc)) (fst acc)"
proof (induction bs arbitrary: acc)
  case Nil
  show ?case by (cases "fst acc") simp_all
next
  case (Cons b bs)
  show ?case
  proof (cases "btype b = CUE \<or> potted b")
    case True
    then show ?thesis using Cons.IH [of acc] by simp
  next
    case False
    show ?thesis
    proof (cases "rayHit s d b")
      case None
      with False show ?thesis using Cons.IH [of acc] by simp
    next
      case (Some t)
      show ?thesis
      proof (cases "lessInf (Some t) (fst acc)")
        case True
        then have "leInf (Some t) (fst acc)" by (cases "fst acc") simp_all
        with leInf_trans [OF Cons.IH [of "(Some t, Some b)"]] False Some True
        show ?thesis by simp
      next
        case f: False
        with False Some show ?thesis using Cons.IH [of acc] by simp
      qed
    qed
  qed
qed

lemma hitLoop_le_hit:
  "b \<in> set bs \<Longrightarrow> specEligible b \<Longrightarrow> rayHit s d b = Some t
     \<Longrightarrow> leInf (fst (hitLoop s d bs acc)) (Some t)"
proof (induction bs arbitrary: acc)
  case Nil
  then show ?case by simp
next
  case (Cons a bs)
  show ?case
  proof (cases "b = a")
    case True
    with Cons.prems have e: "\<not> (btype a = CUE \<or> potted a)" "rayHit s d a = Some t"
      by (simp_all add: specEligible_def)
    show ?thesis
    proof (cases "lessInf (Some t) (fst acc)")
      case True
      with e hitLoop_le_acc [of s d bs "(Some t, Some a)"] show ?thesis by simp
    next
      case False
      then have "leInf (fst acc) (Some t)" by (simp add: leInf_def)
      with leInf_trans [OF hitLoop_le_acc [of s d bs acc]] e False show ?thesis by simp
    qed
  next
    case False
    with Cons.prems have "b \<in> set bs" by simp
    note ih = Cons.IH [OF this Cons.prems(2,3)]
    show ?thesis
      by (cases "rayHit s d a") (auto simp: ih)
  qed
qed

lemma hitLoop_attained:
  "fst (hitLoop s d bs acc) = fst acc
   \<or> (\<exists>b\<in>set bs. specEligible b \<and> (\<exists>t. rayHit s d b = Some t \<and> fst (hitLoop s d bs acc) = Some t))"
proof (induction bs arbitrary: acc)
  case Nil
  show ?case by simp
next
  case (Cons a bs)
  show ?case
  proof (cases "btype a = CUE \<or> potted a")
    case True
    then show ?thesis using Cons.IH [of acc] by auto
  next
    case False
    then have el: "specEligible a" by (simp add: specEligible_def)
    show ?thesis
    proof (cases "rayHit s d a")
      case None
      with False show ?thesis using Cons.IH [of acc] by auto
    next
      case (Some t)
      show ?thesis
      proof (cases "lessInf (Some t) (fst acc)")
        case True
        with False Some el show ?thesis using Cons.IH [of "(Some t, Some a)"] by auto
      next
        case f: False
        with False Some show ?thesis using Cons.IH [of acc] by auto
      qed
    qed
  qed
qed

lemma vecNorm_unit: "v \<noteq> zeroVec \<Longrightarrow> vecDot (vecNorm v) (vecNorm v) = 1"
proof -
  assume "v \<noteq> zeroVec"
  then have "vecLen v \<noteq> 0" by (auto simp: vecLen_zero_iff)
  then have "(vecLen (vecNorm v))\<^sup>2 = 1" by (simp add: vecLen_vecNorm)
  then show ?thesis by (simp add: vecLen_sq)
qed

lemma distToWall_axes:
  "distToWall table s d =
     minInf2 (specAxisDist (cushionWidth table + BALL_RADIUS)
                (width table - cushionWidth table - BALL_RADIUS) (vx s) (vx d))
             (specAxisDist (cushionWidth table + BALL_RADIUS)
                (height table - cushionWidth table - BALL_RADIUS) (vy s) (vy d))"
  by (simp add: distToWall_def specAxisDist_def Let_def)

lemma axes_finite:
  "vecDot d d = 1 \<Longrightarrow> \<exists>w. minInf2 (specAxisDist lx hx sx (vx d)) (specAxisDist ly hy sy (vy d)) = Some w"
proof -
  assume u: "vecDot d d = 1"
  have "vx d \<noteq> 0 \<or> vy d \<noteq> 0"
  proof (rule ccontr)
    assume "\<not> (vx d \<noteq> 0 \<or> vy d \<noteq> 0)"
    with u show False by (simp add: vecDot_def)
  qed
  then show ?thesis
    by (cases "specAxisDist lx hx sx (vx d)"; cases "specAxisDist ly hy sy (vy d)")
       (auto simp: specAxisDist_def split: if_splits)
qed

text \<open>
  Claim C7, as amended.  For a nonzero direction the path is the start point and the end
  point.  The end point lies at the minimum of the nearest per-axis wall distance and the
  nearest intersection of the ray with the circles of radius twice the ball radius around
  the balls that are neither the cue ball nor potted and whose circle the start point lies
  strictly outside of.  The ghost-ball point is the end point exactly when that
  intersection is strictly closer than the wall, and is null when the ray ends at a wall.
\<close>

theorem trajectory_end_point:
  fixes startPos direction :: Vector2 and bs :: "Ball list" and table :: TableConfig
  defines "dir \<equiv> vecNorm direction"
  defines "hit \<equiv> fst (hitLoop startPos dir bs (None, None))"
  assumes nz: "direction \<noteq> zeroVec"
  shows "\<exists>wall.
           minInf2 (specAxisDist (cushionWidth table + BALL_RADIUS)
                      (width table - cushionWidth table - BALL_RADIUS) (vx startPos) (vx dir))
                   (specAxisDist (cushionWidth table + BALL_RADIUS)
                      (height table - cushionWidth table - BALL_RADIUS) (vy startPos) (vy dir))
             = Some wall
         \<and> (hit = None \<longleftrightarrow>
              (\<forall>b\<in>set bs. specEligible b \<and> specOutside startPos b \<longrightarrow>
                  (\<forall>t. \<not> specOnCircle startPos dir b t)))
         \<and> (\<forall>t. hit = Some t \<longrightarrow>
              (\<exists>b\<in>set bs. specEligible b \<and> specOutside startPos b \<and> specOnCircle startPos dir b t)
              \<and> (\<forall>b\<in>set bs. \<forall>u. specEligible b \<and> specOutside startPos b
                     \<and> specOnCircle startPos dir b u \<longrightarrow> t \<le> u))
         \<and> calculatePreciseTrajectory startPos direction bs table =
             Some (case hit of
                     None \<Rightarrow> \<lparr>points = [startPos, vecAdd startPos (vecMult dir wall)],
                              ghostBall = None, opacity = 1\<rparr>
                   | Some t \<Rightarrow>
                       if t < wall
                       then \<lparr>points = [startPos, vecAdd startPos (vecMult dir t)],
                             ghostBall = Some (vecAdd startPos (vecMult dir t)), opacity = 1\<rparr>
                       else \<lparr>points = [startPos, vecAdd startPos (vecMult dir wall)],
                             ghostBall = None, opacity = 1\<rparr>)"
proof -
  have unit: "vecDot dir dir = 1" unfolding dir_def using nz by (rule vecNorm_unit)
  from axes_finite [OF unit] obtain wall where
    w: "minInf2 (specAxisDist (cushionWidth table + BALL_RADIUS)
                      (width table - cushionWidth table - BALL_RADIUS) (vx startPos) (vx dir))
                   (specAxisDist (cushionWidth table + BALL_RADIUS)
                      (height table - cushionWidth table - BALL_RADIUS) (vy startPos) (vy dir))
          = Some wall" by blast
  then have dw: "distToWall table startPos dir = Some wall" by (simp add: distToWall_axes)
  have lower: "leInf hit (Some u)"
    if "b \<in> set bs" "specEligible b" "specOutside startPos b" "specOnCircle startPos dir b u" for b u
  proof -
    from rayHit_complete [OF unit that(3,4)] obtain t where t: "rayHit startPos dir b = Some t" by blast
    from rayHit_sound [OF unit t] that(4) have "t \<le> u" by blast
    with hitLoop_le_hit [OF that(1,2) t, of "(None, None)"] show ?thesis
      unfolding hit_def by (cases "fst (hitLoop startPos dir bs (None, None))") auto
  qed
  have attained: "\<exists>b\<in>set bs. specEligible b \<and> specOutside startPos b \<and> specOnCircle startPos dir b t"
    if "hit = Some t" for t
  proof -
    from hitLoop_attained [of startPos dir bs "(None, None)"] that
    obtain b where b: "b \<in> set bs" "specEligible b" "rayHit startPos dir b = Some t"
      unfolding hit_def by auto
    with rayHit_sound [OF unit b(3)] show ?thesis by blast
  qed
  have a: "hit = None \<longleftrightarrow>
              (\<forall>b\<in>set bs. specEligible b \<and> specOutside startPos b \<longrightarrow>
                  (\<forall>t. \<not> specOnCircle startPos dir b t))"
  proof
    assume n: "hit = None"
    show "\<forall>b\<in>set bs. specEligible b \<and> specOutside startPos b \<longrightarrow> (\<forall>t. \<not> specOnCircle startPos dir b t)"
    proof (intro ballI impI allI notI)
      fix b t assume "b \<in> set bs" "specEligible b \<and> specOutside startPos b" "specOnCircle startPos dir b t"
      with lower [of b t] n show False by simp
    qed
  next
    assume r: "\<forall>b\<in>set bs. specEligible b \<and> specOutside startPos b \<longrightarrow> (\<forall>t. \<not> specOnCircle startPos dir b t)"
    show "hit = None"
    proof (cases hit)
      case None
      then show ?thesis .
    next
      case (Some t)
      from attained [OF this] r show ?thesis by blast
    qed
  qed
  have b: "\<forall>t. hit = Some t \<longrightarrow>
              (\<exists>b\<in>set bs. specEligible b \<and> specOutside startPos b \<and> specOnCircle startPos dir b t)
              \<and> (\<forall>b\<in>set bs. \<forall>u. specEligible b \<and> specOutside startPos b
                     \<and> specOnCircle startPos dir b u \<longrightarrow> t \<le> u)"
  proof (intro allI impI conjI ballI)
    fix t assume "hit = Some t"
    then show "\<exists>b\<in>set bs. specEligible b \<and> specOutside startPos b \<and> specOnCircle startPos dir b t"
      by (rule attained)
  next
    fix t b u assume h: "hit = Some t" and "b \<in> set bs"
      and "specEligible b \<and> specOutside startPos b \<and> specOnCircle startPos dir b u"
    with lower [of b u] show "t \<le> u" by simp
  qed
  have c: "calculatePreciseTrajectory startPos direction bs table =
             Some (case hit of
                     None \<Rightarrow> \<lparr>points = [startPos, vecAdd startPos (vecMult dir wall)],
                              ghostBall = None, opacity = 1\<rparr>
                   | Some t \<Rightarrow>
                       if t < wall
                       then \<lparr>points = [startPos, vecAdd startPos (vecMult dir t)],
                             ghostBall = Some (vecAdd startPos (vecMult dir t)), opacity = 1\<rparr>
                       else \<lparr>points = [startPos, vecAdd startPos (vecMult dir wall)],
                             ghostBall = None, opacity = 1\<rparr>)"
    using dw
    by (cases hit)
       (simp_all add: calculatePreciseTrajectory_def Let_def dir_def [symmetric] hit_def [symmetric]
          min_def)
  from w a b c show ?thesis by blast
qed

lemma sqrt_1369: "sqrt 1369 = 37"
  by (rule real_sqrt_unique) simp_all

lemma vecNorm_axis: "0 < a \<Longrightarrow> vecNorm \<lparr>vx = a, vy = 0\<rparr> = \<lparr>vx = 1, vy = 0\<rparr>"
  by (simp add: vecNorm_def)

theorem ray_from_inside_counterexample:
  "specEligible redNear
   \<and> specOnCircle \<lparr>vx = 100, vy = 100\<rparr> (vecNorm \<lparr>vx = 1, vy = 0\<rparr>) redNear 36.96
   \<and> distToWall TABLE_CONFIG \<lparr>vx = 100, vy = 100\<rparr> (vecNorm \<lparr>vx = 1, vy = 0\<rparr>) = Some 648.75
   \<and> calculatePreciseTrajectory \<lparr>vx = 100, vy = 100\<rparr> \<lparr>vx = 1, vy = 0\<rparr> [cueAtStart, redNear] TABLE_CONFIG
       = Some \<lparr>points = [\<lparr>vx = 100, vy = 100\<rparr>, \<lparr>vx = 748.75, vy = 100\<rparr>],
               ghostBall = None, opacity = 1\<rparr>"
proof -
  have n: "vecNorm \<lparr>vx = 1, vy = 0\<rparr> = \<lparr>vx = 1, vy = 0\<rparr>" by (simp add: vecNorm_axis)
  have a: "specEligible redNear" by (simp add: specEligible_def redNear_def createBall_def)
  have b: "specOnCircle \<lparr>vx = 100, vy = 100\<rparr> \<lparr>vx = 1, vy = 0\<rparr> redNear 36.96"
    by (simp add: specOnCircle_def redNear_def createBall_def vecDist_def vecSub_def vecAdd_def
        vecMult_def BALL_RADIUS_def)
  have w: "distToWall TABLE_CONFIG \<lparr>vx = 100, vy = 100\<rparr> \<lparr>vx = 1, vy = 0\<rparr> = Some 648.75"
    by (simp add: distToWall_def Let_def TABLE_CONFIG_def TABLE_WIDTH_def TABLE_HEIGHT_def
        BALL_RADIUS_def)
  have r: "rayHit \<lparr>vx = 100, vy = 100\<rparr> \<lparr>vx = 1, vy = 0\<rparr> redNear = None"
    by (simp add: rayHit_def Let_def redNear_def createBall_def vecSub_def vecDot_def
        BALL_RADIUS_def sqrt_1369)
  have h: "hitLoop \<lparr>vx = 100, vy = 100\<rparr> \<lparr>vx = 1, vy = 0\<rparr> [cueAtStart, redNear] (None, None) = (None, None)"
    using r by (simp add: cueAtStart_def redNear_def createBall_def)
  have c: "calculatePreciseTrajectory \<lparr>vx = 100, vy = 100\<rparr> \<lparr>vx = 1, vy = 0\<rparr> [cueAtStart, redNear] TABLE_CONFIG
       = Some \<lparr>points = [\<lparr>vx = 100, vy = 100\<rparr>, \<lparr>vx = 748.75, vy = 100\<rparr>],
               ghostBall = None, opacity = 1\<rparr>"
    by (simp add: calculatePreciseTrajectory_def Let_def n w h vecAdd_def vecMult_def
        del: hitLoop.simps)
  from a b w c show ?thesis by (simp add: n)
qed

theorem trajectory_end_point_witness:
  "calculatePreciseTrajectory \<lparr>vx = 100, vy = 100\<rparr> \<lparr>vx = 2, vy = 0\<rparr> [cueAtStart, redAhead] TABLE_CONFIG
     = Some \<lparr>points = [\<lparr>vx = 100, vy = 100\<rparr>, \<lparr>vx = 181.5, vy = 100\<rparr>],
             ghostBall = Some \<lparr>vx = 181.5, vy = 100\<rparr>, opacity = 1\<rparr>
   \<and> specOnCircle \<lparr>vx = 100, vy = 100\<rparr> \<lparr>vx = 1, vy = 0\<rparr> redAhead 81.5"
proof -
  have n: "vecNorm \<lparr>vx = 2, vy = 0\<rparr> = \<lparr>vx = 1, vy = 0\<rparr>" by (simp add: vecNorm_axis)
  have r: "rayHit \<lparr>vx = 100, vy = 100\<rparr> \<lparr>vx = 1, vy = 0\<rparr> redAhead = Some 81.5"
    by (simp add: rayHit_def Let_def redAhead_def createBall_def vecSub_def vecDot_def
        BALL_RADIUS_def sqrt_1369)
  have h: "fst (hitLoop \<lparr>vx = 100, vy = 100\<rparr> \<lparr>vx = 1, vy = 0\<rparr> [cueAtStart, redAhead] (None, None)) = Some 81.5"
    using r by (simp add: cueAtStart_def redAhead_def createBall_def)
  have nz: "\<lparr>vx = 2, vy = 0\<rparr> \<noteq> zeroVec" by simp
  from trajectory_end_point [OF nz, of TABLE_CONFIG "\<lparr>vx = 100, vy = 100\<rparr>" "[cueAtStart, redAhead]"]
  obtain wall where w:
    "minInf2 (specAxisDist (cushionWidth TABLE_CONFIG + BALL_RADIUS)
                (width TABLE_CONFIG - cushionWidth TABLE_CONFIG - BALL_RADIUS) 100 1)
             (specAxisDist (cushionWidth TABLE_CONFIG + BALL_RADIUS)
                (height TABLE_CONFIG - cushionWidth TABLE_CONFIG - BALL_RADIUS) 100 0) = Some wall"
    and on: "\<exists>b\<in>set [cueAtStart, redAhead]. specEligible b \<and> specOutside \<lparr>vx = 100, vy = 100\<rparr> b
               \<and> specOnCircle \<lparr>vx = 100, vy = 100\<rparr> \<lparr>vx = 1, vy = 0\<rparr> b 81.5"
    and c: "calculatePreciseTrajectory \<lparr>vx = 100, vy = 100\<rparr> \<lparr>vx = 2, vy = 0\<rparr> [cueAtStart, redAhead] TABLE_CONFIG =
             Some (if 81.5 < wall
                   then \<lparr>points = [\<lparr>vx = 100, vy = 100\<rparr>, vecAdd \<lparr>vx = 100, vy = 100\<rparr> (vecMult \<lparr>vx = 1, vy = 0\<rparr> 81.5)],
                         ghostBall = Some (vecAdd \<lparr>vx = 100, vy = 100\<rparr> (vecMult \<lparr>vx = 1, vy = 0\<rparr> 81.5)), opacity = 1\<rparr>
                   else \<lparr>points = [\<lparr>vx = 100, vy = 100\<rparr>, vecAdd \<lparr>vx = 100, vy = 100\<rparr> (vecMult \<lparr>vx = 1, vy = 0\<rparr> wall)],
                         ghostBall = None, opacity = 1\<rparr>)"
    unfolding n h by auto
  from w have "wall = 648.75"
    by (simp add: specAxisDist_def TABLE_CONFIG_def TABLE_WIDTH_def TABLE_HEIGHT_def BALL_RADIUS_def)
  moreover have "\<not> specEligible cueAtStart"
    by (simp add: specEligible_def cueAtStart_def createBall_def)
  ultimately show ?thesis using c on by (simp add: vecAdd_def vecMult_def)
qed

section \<open>AI shot planner: the power\<close>

text \<open>
  Claim C9.  For every cue ball, ball list, table, difficulty and target state and for
  every outcome of the random draws, the power that \<open>calculateAIShot\<close> returns lies in
  the closed interval from 5 to 100.
\<close>

theorem ai_power_clamped:
  "5 \<le> shotPower (calculateAIShot cueBall bs table difficulty tgt rnd)
   \<and> shotPower (calculateAIShot cueBall bs table difficulty tgt rnd) \<le> 100"
  by (simp add: calculateAIShot_def Let_def split: prod.splits)

end
